theory Spec2Isabelle
  imports Main
begin

section \<open>Strings and the string primitives of the host language\<close>

text \<open>
  The plug (\<^verbatim>\<open>grep.ts\<close>) works on JavaScript strings. A string is modelled as a
  \<^typ>\<open>string\<close>, a list of characters, each standing for one code unit; every primitive
  below works unit by unit, as its JavaScript counterpart does. An ASCII code unit is its
  character. The only other code units that the plug itself writes are the two halves of
  the magnifying-glass sign at the end of the name of the virtual result page; each is
  written as one character outside ASCII, so that lengths count code units.

  Two operations of the host language are not computed unit by unit from the text of
  the plug: \<^verbatim>\<open>String.prototype.toLowerCase\<close>, which follows the Unicode case
  mappings, and the regular-expression engine. Both enter the model as arguments.
\<close>

type_synonym caseMapping = "string \<Rightarrow> string"

definition newline :: char where
  "newline = CHR 0x0A"

definition backslash :: char where
  "backslash = CHR 0x5C"

definition isDigit :: "char \<Rightarrow> bool" where
  "isDigit c = (let n = (of_char c :: nat) in 48 \<le> n \<and> n \<le> 57)"

text \<open>\<^verbatim>\<open>s.startsWith(p)\<close> and \<^verbatim>\<open>s.endsWith(p)\<close>.\<close>

definition startsWith :: "string \<Rightarrow> string \<Rightarrow> bool" where
  "startsWith s p = (take (length p) s = p)"

definition endsWith :: "string \<Rightarrow> string \<Rightarrow> bool" where
  "endsWith s p = (length p \<le> length s \<and> drop (length s - length p) s = p)"

text \<open>
  \<^verbatim>\<open>s.slice(start, end)\<close>: a negative bound counts from the end of the string, and
  both bounds are clamped to the string.
\<close>

definition sliceIndex :: "nat \<Rightarrow> int \<Rightarrow> nat" where
  "sliceIndex len i = (if i < 0 then nat (max (int len + i) 0) else min (nat i) len)"

definition slice :: "string \<Rightarrow> int \<Rightarrow> int \<Rightarrow> string" where
  "slice s start stop =
     (let from = sliceIndex (length s) start; to = sliceIndex (length s) stop
      in take (to - from) (drop from s))"

text \<open>
  \<^verbatim>\<open>s.substring(start)\<close> and \<^verbatim>\<open>s.substring(start, end)\<close>: the bounds are clamped to
  the string and swapped when they come in the wrong order.
\<close>

definition substringFrom :: "string \<Rightarrow> nat \<Rightarrow> string" where
  "substringFrom s start = drop (min start (length s)) s"

definition substring :: "string \<Rightarrow> nat \<Rightarrow> nat \<Rightarrow> string" where
  "substring s start stop =
     (let a = min start (length s); b = min stop (length s);
          from = min a b; to = max a b
      in take (to - from) (drop from s))"

text \<open>\<^verbatim>\<open>s.lastIndexOf(c)\<close> for a one-character needle: \<open>-1\<close> when it does not occur.\<close>

fun lastIndexFrom :: "char \<Rightarrow> int \<Rightarrow> int \<Rightarrow> string \<Rightarrow> int" where
  "lastIndexFrom c i found [] = found"
| "lastIndexFrom c i found (x # xs) = lastIndexFrom c (i + 1) (if x = c then i else found) xs"

definition lastIndexOf :: "string \<Rightarrow> char \<Rightarrow> int" where
  "lastIndexOf s c = lastIndexFrom c 0 (- 1) s"

text \<open>
  \<^verbatim>\<open>s.split(sep)\<close>: the pieces of \<open>s\<close> between the successive occurrences of the
  separator, found from the left. The result always has at least one piece; with the
  empty separator the pieces are the single code units.
\<close>

function splitOn :: "string \<Rightarrow> string \<Rightarrow> string list" where
  "splitOn sep [] = [[]]"
| "splitOn sep (x # xs) =
     (if sep \<noteq> [] \<and> take (length sep) (x # xs) = sep
      then [] # splitOn sep (drop (length sep) (x # xs))
      else (case splitOn sep xs of
              [] \<Rightarrow> [[x]]
            | piece # pieces \<Rightarrow> (x # piece) # pieces))"
  by pat_completeness auto
termination
  by (relation "measure (\<lambda>(sep, s). length s)") auto

definition split :: "string \<Rightarrow> string \<Rightarrow> string list" where
  "split s sep = (if sep = [] then map (\<lambda>c. [c]) s else splitOn sep s)"

text \<open>\<^verbatim>\<open>parts.join(sep)\<close>.\<close>

fun join :: "string list \<Rightarrow> string \<Rightarrow> string" where
  "join [] sep = []"
| "join [p] sep = p"
| "join (p # q # ps) sep = p @ sep @ join (q # ps) sep"

text \<open>
  Numbers. \<^verbatim>\<open>parseInt\<close> is only applied to the text before the first colon of a line
  that starts with decimal digits, so it is modelled as reading the leading decimal
  digits; \<^verbatim>\<open>n.toString()\<close> is the decimal numeral without leading zeros. Both are
  exact on natural numbers (the source computes in double precision, which is exact below
  \<open>2^53\<close>).
\<close>

definition digitValue :: "char \<Rightarrow> nat" where
  "digitValue c = of_char c - 48"

definition parseInt :: "string \<Rightarrow> nat" where
  "parseInt s = foldl (\<lambda>n c. 10 * n + digitValue c) 0 (takeWhile isDigit s)"

definition digitChar :: "nat \<Rightarrow> char" where
  "digitChar d = char_of (48 + d)"

function toString :: "nat \<Rightarrow> string" where
  "toString n = (if n < 10 then [digitChar n] else toString (n div 10) @ [digitChar (n mod 10)])"
  by pat_completeness auto
termination
  by (relation "measure id") auto

declare toString.simps [simp del]

section \<open>Configuration\<close>

text \<open>
  \<^verbatim>\<open>GrepConfig\<close>: every key is optional; \<^verbatim>\<open>surround\<close> is either \<^verbatim>\<open>false\<close> or an
  object whose two keys are optional again.
\<close>

datatype surroundConfig =
    SurroundFalse
  | SurroundMarkers "string option" "string option"

record grepConfig =
  smartCase :: "bool option"
  surround :: "surroundConfig option"
  saveResults :: "bool option"
  ignoreFolders :: "string list option"

definition VERSION :: string where
  "VERSION = ''2.3.0''"

definition resultPageSaved :: string where
  "resultPageSaved = ''GREP RESULT''"

text \<open>
  The name of the virtual page ends in the sign U+1F50D, in a JavaScript string the two
  code units \<open>0xD83D\<close> and \<open>0xDD0D\<close>, here the characters \<open>0xD8\<close> and \<open>0xDD\<close>.
\<close>

definition resultPageVirtual :: string where
  "resultPageVirtual = ''GREP RESULT '' @ [CHR 0xD8, CHR 0xDD]"

subsection \<open>Paths and the folder filter\<close>

definition normalizePath :: "string \<Rightarrow> string" where
  "normalizePath path =
     (let forward = map (\<lambda>c. if c = backslash then CHR ''/'' else c) path
      in if startsWith forward ''./'' then substringFrom forward 2 else forward)"

text \<open>The test that \<^verbatim>\<open>shouldIgnoreFolder\<close> applies to one entry of \<^verbatim>\<open>ignoreFolders\<close>.\<close>

definition matchesIgnorePattern :: "string \<Rightarrow> string \<Rightarrow> bool" where
  "matchesIgnorePattern normalizedPath ignorePattern =
     (let pat = normalizePath ignorePattern
      in if endsWith pat ''/*''
         then (let basePattern = slice pat 0 (- 2) in startsWith normalizedPath basePattern)
         else normalizedPath = pat)"

definition shouldIgnoreFolder :: "string \<Rightarrow> ('a grepConfig_scheme) \<Rightarrow> bool" where
  "shouldIgnoreFolder folderPath config =
     (case ignoreFolders config of
        None \<Rightarrow> False
      | Some patterns \<Rightarrow>
          (let normalizedPath = normalizePath folderPath
           in list_ex (matchesIgnorePattern normalizedPath) patterns))"

subsection \<open>Smart case and the surround markers\<close>

text \<open>The first lines of \<^verbatim>\<open>grep\<close>: the settings it reads from the configuration.\<close>

definition resolveSmartCase :: "('a grepConfig_scheme) \<Rightarrow> bool" where
  "resolveSmartCase config = (if smartCase config = Some False then False else True)"

text \<open>
  \<^verbatim>\<open>if (config.surround.left) surroundLeft = config.surround.left\<close>: a key that is
  absent or holds the empty string is falsy and leaves the default in place.
\<close>

definition markerOr :: "string option \<Rightarrow> string \<Rightarrow> string" where
  "markerOr v dflt = (case v of None \<Rightarrow> dflt | Some s \<Rightarrow> (if s \<noteq> [] then s else dflt))"

definition surroundLeft :: "('a grepConfig_scheme) \<Rightarrow> string" where
  "surroundLeft config =
     (case surround config of
        None \<Rightarrow> ''>>>''
      | Some SurroundFalse \<Rightarrow> []
      | Some (SurroundMarkers l r) \<Rightarrow> markerOr l ''>>>'')"

definition surroundRight :: "('a grepConfig_scheme) \<Rightarrow> string" where
  "surroundRight config =
     (case surround config of
        None \<Rightarrow> ''<<<''
      | Some SurroundFalse \<Rightarrow> []
      | Some (SurroundMarkers l r) \<Rightarrow> markerOr r ''<<<'')"

text \<open>
  \<^verbatim>\<open>smartCase ? pattern.toLowerCase() !== pattern : true\<close>, with the host's
  \<^verbatim>\<open>toLowerCase\<close> as the argument \<open>lower\<close>.
\<close>

definition caseSensitive :: "caseMapping \<Rightarrow> ('a grepConfig_scheme) \<Rightarrow> string \<Rightarrow> bool" where
  "caseSensitive lower config pat =
     (if resolveSmartCase config then lower pat \<noteq> pat else True)"

section \<open>The external search and the pattern engine\<close>

text \<open>
  \<^verbatim>\<open>shell.run("git", gitArgs)\<close> is a call into the host: it throws, or returns a falsy
  value, or returns what the process left: its standard output, its standard error and
  its exit code. \<^verbatim>\<open>grep\<close> reads the standard output only.
\<close>

record processResult =
  stdout :: string
  stderr :: string
  code :: int

datatype shellResult = ShellThrows | ShellFalsy | ShellReturns processResult

definition gitArgs :: "bool \<Rightarrow> bool \<Rightarrow> string \<Rightarrow> string \<Rightarrow> string list" where
  "gitArgs cs literal pat folder =
     [''-c'', ''core.quotePath=false'', ''grep'', ''--heading'', ''--break'',
      ''--line-number'', ''--column'', ''--no-color'', ''--no-index'']
     @ (if cs then [] else [''--ignore-case''])
     @ [if literal then ''--fixed-strings'' else ''--extended-regexp'',
        pat,
        ''--'',
        folder @ (if endsWith folder ''/'' then [] else ''/'') @ ''*.md'']"

text \<open>\<^verbatim>\<open>escapeRegExp\<close>: a backslash before each character of \<^verbatim>\<open>[.*+?^${}()|[\]\\]\<close>.\<close>

definition regexSpecial :: "char \<Rightarrow> bool" where
  "regexSpecial c = (c \<in> set ''.*+?^${}()|[]'' \<or> c = backslash)"

definition escapeRegExp :: "string \<Rightarrow> string" where
  "escapeRegExp text = concat (map (\<lambda>c. if regexSpecial c then [backslash, c] else [c]) text)"

text \<open>
  A \<^verbatim>\<open>RegExp\<close> object is its source and its flags. The regular-expression engine is
  part of the host language, not of the plug; it enters the model as a parameter: an
  engine either rejects a regular expression when it is constructed (a
  \<^verbatim>\<open>SyntaxError\<close>) or gives the function that \<^verbatim>\<open>context.matchAll(innerRegex)\<close>
  computes, the occurrences in a string from left to right, each with its start index and
  the text it matched.
\<close>

record regExp =
  source :: string
  flags :: string

record innerMatch =
  index :: nat
  matched :: string

type_synonym engine = "regExp \<Rightarrow> (string \<Rightarrow> innerMatch list) option"

definition innerRegex :: "bool \<Rightarrow> bool \<Rightarrow> string \<Rightarrow> regExp" where
  "innerRegex cs literal pat =
     \<lparr>source = (if literal then escapeRegExp pat else pat),
      flags = (if cs then ''g'' else ''gi'')\<rparr>"

subsection \<open>An engine for escaped literals\<close>

text \<open>
  What the engine of the host language does with a source in which every special
  character is escaped, that is, with a source that stands for a literal text, such as
  \<open>escapeRegExp\<close> produces: it scans the string from the left for the literal,
  resumes after the end of each occurrence (one unit further after an empty one), and
  with the flag \<open>i\<close> compares the canonical forms of the code units, unit by unit. The
  canonical form of a code unit is the host's matter (its upper-case form, where that is
  one unit) and is the argument \<open>canon\<close>. This engine rejects every other source, so it
  stands for the host's engine on literal sources only.
\<close>

fun unescapeLiteral :: "string \<Rightarrow> string option" where
  "unescapeLiteral [] = Some []"
| "unescapeLiteral [c] = (if regexSpecial c then None else Some [c])"
| "unescapeLiteral (c # d # ds) =
     (if c = backslash
      then (if regexSpecial d then map_option ((#) d) (unescapeLiteral ds) else None)
      else if regexSpecial c then None
      else map_option ((#) c) (unescapeLiteral (d # ds)))"

definition matchesAt :: "(char \<Rightarrow> char) \<Rightarrow> bool \<Rightarrow> string \<Rightarrow> string \<Rightarrow> bool" where
  "matchesAt canon ignoreCase lit s =
     (length lit \<le> length s \<and>
      (if ignoreCase then map canon (take (length lit) s) = map canon lit
       else take (length lit) s = lit))"

function findAll :: "(char \<Rightarrow> char) \<Rightarrow> bool \<Rightarrow> string \<Rightarrow> nat \<Rightarrow> string \<Rightarrow> innerMatch list" where
  "findAll canon ignoreCase lit i [] =
     (if lit = [] then [\<lparr>index = i, matched = []\<rparr>] else [])"
| "findAll canon ignoreCase lit i (x # xs) =
     (if matchesAt canon ignoreCase lit (x # xs)
      then \<lparr>index = i, matched = take (length lit) (x # xs)\<rparr>
           # (if lit = [] then findAll canon ignoreCase lit (i + 1) xs
              else findAll canon ignoreCase lit (i + length lit) (drop (length lit) (x # xs)))
      else findAll canon ignoreCase lit (i + 1) xs)"
  by pat_completeness auto
termination
  by (relation "measure (\<lambda>(canon, ignoreCase, lit, i, s). length s)") auto

definition literalEngine :: "(char \<Rightarrow> char) \<Rightarrow> engine" where
  "literalEngine canon r =
     (case unescapeLiteral (source r) of
        None \<Rightarrow> None
      | Some lit \<Rightarrow> Some (findAll canon (CHR ''i'' \<in> set (flags r)) lit 0))"

text \<open>
  What it means for a list of occurrences to be the occurrences of a non-empty literal in
  a string, found from the left without overlap: each of them lies in the string and is
  a match of the literal there; each starts at or after the end of the one before; and
  every position at which the literal matches lies inside one of them.
\<close>

definition literalOccurrences ::
  "(char \<Rightarrow> char) \<Rightarrow> bool \<Rightarrow> string \<Rightarrow> string \<Rightarrow> innerMatch list \<Rightarrow> bool" where
  "literalOccurrences canon ignoreCase lit ctx occs =
     ((\<forall>occ \<in> set occs.
         index occ + length lit \<le> length ctx
         \<and> matched occ = take (length lit) (drop (index occ) ctx)
         \<and> matchesAt canon ignoreCase lit (drop (index occ) ctx))
      \<and> sorted_wrt (\<lambda>a b. index a + length lit \<le> index b) occs
      \<and> (\<forall>q \<le> length ctx.
           matchesAt canon ignoreCase lit (drop q ctx) \<longrightarrow>
           (\<exists>occ \<in> set occs. index occ \<le> q \<and> q < index occ + length lit)))"

section \<open>Refining the hits and building the report\<close>

record grepMatch =
  lineNum :: nat
  columnNum :: nat
  highlightedContext :: string

record fileMatch =
  page :: string
  matches :: "grepMatch list"

text \<open>\<^verbatim>\<open>line.match(/^(\d)+:(\d)+:/)\<close>: digits, a colon, digits, a colon.\<close>

definition locationMatch :: "string \<Rightarrow> bool" where
  "locationMatch line =
     (let rest1 = dropWhile isDigit line
      in takeWhile isDigit line \<noteq> [] \<and>
         (case rest1 of
            [] \<Rightarrow> False
          | c1 # after1 \<Rightarrow>
              c1 = CHR '':'' \<and> takeWhile isDigit after1 \<noteq> [] \<and>
              (case dropWhile isDigit after1 of
                 [] \<Rightarrow> False
               | c2 # after2 \<Rightarrow> c2 = CHR '':'')))"

text \<open>
  The line that the tool prints for a hit, under the options \<^verbatim>\<open>--line-number\<close> and
  \<^verbatim>\<open>--column\<close>: the number of the line, the column of its first occurrence and the text
  of the line, with a colon after each number.
\<close>

definition hitLine :: "nat \<Rightarrow> nat \<Rightarrow> string \<Rightarrow> string" where
  "hitLine ln col ctx = toString ln @ '':'' @ toString col @ '':'' @ ctx"

text \<open>
  The body of the loop over \<^verbatim>\<open>innerMatches\<close>: one match for each occurrence, the
  context line copied with the markers around that occurrence.
\<close>

definition surroundOccurrence :: "string \<Rightarrow> string \<Rightarrow> nat \<Rightarrow> string \<Rightarrow> innerMatch \<Rightarrow> grepMatch" where
  "surroundOccurrence left right ln ctx m =
     (let col = index m + 1;
          start = index m;
          stop = index m + length (matched m);
          surrounded =
            join [substring ctx 0 start, left, substring ctx start stop, right,
                  substringFrom ctx stop] []
      in \<lparr>lineNum = ln, columnNum = col, highlightedContext = surrounded\<rparr>)"

definition refine :: "(string \<Rightarrow> innerMatch list) \<Rightarrow> string \<Rightarrow> string \<Rightarrow> nat \<Rightarrow> string \<Rightarrow> grepMatch list" where
  "refine matchAll left right ln ctx = map (surroundOccurrence left right ln ctx) (matchAll ctx)"

text \<open>
  One line of a group. A line that passes \<open>locationMatch\<close> has at least two colons, so
  \<^verbatim>\<open>line.split(":")\<close> has its first two pieces (lemma \<open>locationMatch_split\<close>); the last
  case below is never reached.
\<close>

definition lineMatches :: "(string \<Rightarrow> innerMatch list) \<Rightarrow> string \<Rightarrow> string \<Rightarrow> string \<Rightarrow> grepMatch list" where
  "lineMatches matchAll left right line =
     (if \<not> locationMatch line then []
      else (case split line '':'' of
              p0 # p1 # ps \<Rightarrow>
                (let ln = parseInt p0;
                     ctx = substringFrom line (length (toString ln) + length p1 + 2)
                 in refine matchAll left right ln ctx)
            | _ \<Rightarrow> []))"

text \<open>
  The body of the loop over \<^verbatim>\<open>fileOutputs\<close>: \<open>None\<close> for a group that the loop
  skips with \<^verbatim>\<open>continue\<close>. (\<^verbatim>\<open>split\<close> never gives an empty array, lemma
  \<open>split_not_Nil\<close>, so \<^verbatim>\<open>lines[0]\<close> exists.)
\<close>

definition folderOf :: "string \<Rightarrow> string" where
  "folderOf pg = substring pg 0 (nat (lastIndexOf pg (CHR ''/'') + 1))"

definition scanFileOutput ::
  "(string \<Rightarrow> innerMatch list) \<Rightarrow> ('a grepConfig_scheme) \<Rightarrow> string \<Rightarrow> fileMatch option" where
  "scanFileOutput matchAll config fileOutput =
     (case split fileOutput [newline] of
        [] \<Rightarrow> None
      | header # body \<Rightarrow>
          if \<not> endsWith header ''.md'' then None
          else (let pg = normalizePath (slice header 0 (- 3));
                    folderPath = folderOf pg
                in if shouldIgnoreFolder folderPath config then None
                   else if pg = resultPageSaved then None
                   else if pg = resultPageVirtual then None
                   else Some \<lparr>page = pg,
                              matches = concat (map (lineMatches matchAll (surroundLeft config)
                                                       (surroundRight config)) body)\<rparr>))"

definition collectFileMatches ::
  "(string \<Rightarrow> innerMatch list) \<Rightarrow> ('a grepConfig_scheme) \<Rightarrow> string \<Rightarrow> fileMatch list" where
  "collectFileMatches matchAll config output =
     List.map_filter (scanFileOutput matchAll config) (split output [newline, newline])"

text \<open>
  \<^verbatim>\<open>fileMatches.sort(compare)\<close>. The sort of the host language is stable; it is modelled
  as the insertion sort that keeps equal elements in their order.
\<close>

definition compareMatchCount :: "fileMatch \<Rightarrow> fileMatch \<Rightarrow> int" where
  "compareMatchCount a b = - (int (length (matches a)) - int (length (matches b)))"

fun insertBy :: "('a \<Rightarrow> 'a \<Rightarrow> int) \<Rightarrow> 'a \<Rightarrow> 'a list \<Rightarrow> 'a list" where
  "insertBy cmp x [] = [x]"
| "insertBy cmp x (y # ys) = (if cmp x y \<le> 0 then x # y # ys else y # insertBy cmp x ys)"

definition sortBy :: "('a \<Rightarrow> 'a \<Rightarrow> int) \<Rightarrow> 'a list \<Rightarrow> 'a list" where
  "sortBy cmp xs = foldr (insertBy cmp) xs []"

definition documentResults ::
  "(string \<Rightarrow> innerMatch list) \<Rightarrow> ('a grepConfig_scheme) \<Rightarrow> string \<Rightarrow> fileMatch list" where
  "documentResults matchAll config output =
     sortBy compareMatchCount (collectFileMatches matchAll config output)"

text \<open>The text of the report: the template at the end of \<^verbatim>\<open>grep\<close>.\<close>

definition renderMatch :: "string \<Rightarrow> grepMatch \<Rightarrow> string" where
  "renderMatch pg m =
     ''* [['' @ pg @ ''@L'' @ toString (lineNum m) @ ''C'' @ toString (columnNum m)
     @ ''|L'' @ toString (lineNum m) @ ''C'' @ toString (columnNum m) @ '']]: ''
     @ highlightedContext m"

definition renderFileMatch :: "fileMatch \<Rightarrow> string" where
  "renderFileMatch fm =
     [newline] @ ''## [['' @ page fm @ '']] ('' @ toString (length (matches fm)) @ '' ''
     @ (if length (matches fm) > 1 then ''matches'' else ''match'') @ '')'' @ [newline]
     @ join (map (renderMatch (page fm)) (matches fm)) [newline]"

definition renderReport :: "bool \<Rightarrow> string \<Rightarrow> string \<Rightarrow> fileMatch list \<Rightarrow> string" where
  "renderReport literal pat folder fileMatches =
     ''Search results for '' @ (if literal then ''text'' else ''pattern'')
     @ '' **`'' @ pat @ ''`**''
     @ (if folder \<noteq> ''.''
        then [newline] @ ''**found inside folder:** '' @ folder @ [newline] else [])
     @ [newline]
     @ join (map renderFileMatch fileMatches) [newline]
     @ [newline] @ ''    ''"

section \<open>The search\<close>

datatype notificationType = Info | Error

record notification =
  message :: string
  kind :: notificationType

definition noResultsNotification :: "bool \<Rightarrow> string \<Rightarrow> notification" where
  "noResultsNotification literal pat =
     \<lparr>message = (if literal then ''Text'' else ''Pattern'') @ '' '' @ [CHR 0x22] @ pat
                 @ [CHR 0x22] @ '' produced no results'',
      kind = Info\<rparr>"

definition gitErrorNotification :: notification where
  "gitErrorNotification =
     \<lparr>message = ''Error running '' @ [CHR 0x27] @ ''git'' @ [CHR 0x27]
                 @ '' command, make sure Git is in PATH'',
      kind = Error\<rparr>"

text \<open>
  \<^verbatim>\<open>grep\<close>. An exception that leaves the function is the left summand of the result;
  otherwise the result holds the notifications flashed and the value returned, \<open>None\<close>
  for \<^verbatim>\<open>undefined\<close>. The host's \<^verbatim>\<open>toLowerCase\<close>, its regular-expression engine,
  the configuration and the host's \<^verbatim>\<open>shell.run\<close> are arguments.
\<close>

datatype exn = TypeError | SyntaxError

record grepOutcome =
  notified :: "notification list"
  returned :: "string option"

definition grep ::
  "caseMapping \<Rightarrow> engine \<Rightarrow> ('a grepConfig_scheme)
   \<Rightarrow> (string \<Rightarrow> string list \<Rightarrow> shellResult)
   \<Rightarrow> string \<Rightarrow> bool \<Rightarrow> string \<Rightarrow> exn + grepOutcome" where
  "grep lower E config run pat literal folder =
     (let cs = caseSensitive lower config pat
      in case run ''git'' (gitArgs cs literal pat folder) of
           ShellThrows \<Rightarrow> Inr \<lparr>notified = [gitErrorNotification], returned = None\<rparr>
         | ShellFalsy \<Rightarrow> Inr \<lparr>notified = [noResultsNotification literal pat], returned = None\<rparr>
         | ShellReturns result \<Rightarrow>
             (let output = stdout result
              in if output = []
                 then Inr \<lparr>notified = [noResultsNotification literal pat], returned = None\<rparr>
                 else (case E (innerRegex cs literal pat) of
                         None \<Rightarrow> Inl SyntaxError
                       | Some matchAll \<Rightarrow>
                           Inr \<lparr>notified = [],
                                returned = Some (renderReport literal pat folder
                                                   (documentResults matchAll config output))\<rparr>)))"

section \<open>Commands and the result page\<close>

text \<open>
  The arguments of a call of \<^verbatim>\<open>openGrep\<close>, which are also what it stores under
  \<^verbatim>\<open>["grep", "arguments"]\<close>.
\<close>

record grepArguments =
  argPattern :: string
  argLiteral :: bool
  argFolder :: string

text \<open>
  The four commands. Each takes what \<^verbatim>\<open>editor.prompt\<close> gave (\<open>None\<close> when the prompt
  was dismissed) and, for the folder commands, the name of the current page; the result
  is the call of \<^verbatim>\<open>openGrep\<close> that the command makes, \<open>None\<close> when it returns without
  one.
\<close>

definition searchText :: "string option \<Rightarrow> grepArguments option" where
  "searchText prompted =
     (case prompted of
        None \<Rightarrow> None
      | Some pat \<Rightarrow>
          if pat = [] then None
          else Some \<lparr>argPattern = pat, argLiteral = True, argFolder = ''.''\<rparr>)"

definition searchRegex :: "string option \<Rightarrow> grepArguments option" where
  "searchRegex prompted =
     (case prompted of
        None \<Rightarrow> None
      | Some pat \<Rightarrow>
          if pat = [] then None
          else Some \<lparr>argPattern = pat, argLiteral = False, argFolder = ''.''\<rparr>)"

definition searchRegexInFolder :: "string \<Rightarrow> string option \<Rightarrow> grepArguments option" where
  "searchRegexInFolder pageName prompted =
     (let folderPath = slice pageName 0 (lastIndexOf pageName (CHR ''/'') + 1)
      in case prompted of
           None \<Rightarrow> None
         | Some pat \<Rightarrow>
             if pat = [] then None
             else Some \<lparr>argPattern = pat, argLiteral = False,
                        argFolder = (if folderPath \<noteq> [] then folderPath else ''.'')\<rparr>)"

definition searchTextInFolder :: "string \<Rightarrow> string option \<Rightarrow> grepArguments option" where
  "searchTextInFolder pageName prompted =
     (let folderPath = slice pageName 0 (lastIndexOf pageName (CHR ''/'') + 1)
      in case prompted of
           None \<Rightarrow> None
         | Some pat \<Rightarrow>
             if pat = [] then None
             else Some \<lparr>argPattern = pat, argLiteral = False,
                        argFolder = (if folderPath \<noteq> [] then folderPath else ''.'')\<rparr>)"

text \<open>
  The part of the host that \<^verbatim>\<open>openGrep\<close> and the result page touch: the stored
  arguments, the page the editor shows, the text of the pages, the notifications.
\<close>

record host =
  storedArguments :: "grepArguments option"
  currentPage :: string
  pageText :: "string \<rightharpoonup> string"
  flashed :: "notification list"

definition openGrep ::
  "caseMapping \<Rightarrow> engine \<Rightarrow> ('a grepConfig_scheme)
   \<Rightarrow> (string \<Rightarrow> string list \<Rightarrow> shellResult)
   \<Rightarrow> grepArguments \<Rightarrow> host \<Rightarrow> exn + host" where
  "openGrep lower E config run args h =
     (if saveResults config = Some True
      then (case grep lower E config run (argPattern args) (argLiteral args) (argFolder args) of
              Inl e \<Rightarrow> Inl e
            | Inr out \<Rightarrow>
                (let h1 = h\<lparr>flashed := flashed h @ notified out\<rparr>
                 in case returned out of
                      None \<Rightarrow> Inr h1
                    | Some text \<Rightarrow>
                        if text = [] then Inr h1
                        else Inr (h1\<lparr>currentPage := resultPageSaved,
                                     pageText := (pageText h1)(resultPageSaved \<mapsto>
                                       ''#meta'' @ [newline, newline] @ text)\<rparr>)))
      else Inr (h\<lparr>storedArguments := Some args, currentPage := resultPageVirtual\<rparr>))"

record fileMeta =
  metaName :: string
  contentType :: string
  metaSize :: int
  created :: int
  lastModified :: int
  perm :: string

record fileResult =
  fileData :: string
  fileMeta :: fileMeta

definition couldNotCallText :: string where
  "couldNotCallText =
     ''Could not call grep implementation, make sure to only open '' @ [CHR 0x22]
     @ resultPageVirtual @ [CHR 0x22] @ '' using Grep Plug commands''"

text \<open>
  \<^verbatim>\<open>readFileGrepResult\<close>. Reading \<^verbatim>\<open>args.pattern\<close> when nothing is stored throws a
  \<^verbatim>\<open>TypeError\<close> inside the \<^verbatim>\<open>try\<close> block; so does any exception of the replayed
  \<^verbatim>\<open>grep\<close>. \<open>replayStored\<close> is the body of the \<^verbatim>\<open>try\<close> block. The result
  is what the function returns; the notifications that the replayed search flashes are
  those of \<^verbatim>\<open>grep\<close> and are left out of it. The size in the metadata is
  \<^verbatim>\<open>text.length\<close>, the number of code units of the text.
\<close>

definition replayStored ::
  "caseMapping \<Rightarrow> engine \<Rightarrow> ('a grepConfig_scheme)
   \<Rightarrow> (string \<Rightarrow> string list \<Rightarrow> shellResult)
   \<Rightarrow> host \<Rightarrow> exn + grepOutcome" where
  "replayStored lower E config run h =
     (case storedArguments h of
        None \<Rightarrow> Inl TypeError
      | Some args \<Rightarrow>
          grep lower E config run (argPattern args) (argLiteral args) (argFolder args))"

definition readFileGrepResult ::
  "caseMapping \<Rightarrow> engine \<Rightarrow> ('a grepConfig_scheme)
   \<Rightarrow> (string \<Rightarrow> string list \<Rightarrow> shellResult)
   \<Rightarrow> host \<Rightarrow> string \<Rightarrow> exn + fileResult" where
  "readFileGrepResult lower E config run h nm =
     (let text0 = ''Did not produce any results'';
          text = (case replayStored lower E config run h of
                    Inl e \<Rightarrow> couldNotCallText
                  | Inr out \<Rightarrow>
                      (case returned out of
                         None \<Rightarrow> text0
                       | Some grepText \<Rightarrow> if grepText \<noteq> [] then grepText else text0))
      in Inr \<lparr>fileData = text,
              fileMeta = \<lparr>metaName = nm, contentType = ''text/markdown'',
                          metaSize = int (length text), created = 0, lastModified = 0,
                          perm = ''ro''\<rparr>\<rparr>)"

section \<open>The folder filter in the words of the specification\<close>

text \<open>
  The specification words the folder filter on the entries of \<^verbatim>\<open>ignoreFolders\<close> as they
  are configured: the folder path equals an entry, or an entry ends in \<^verbatim>\<open>/*\<close> and the
  folder path starts with the entry without that suffix. This definition follows those
  words; \<open>shouldIgnoreFolder\<close> above follows the source.
\<close>

definition specExcludes :: "string \<Rightarrow> string list \<Rightarrow> bool" where
  "specExcludes folderPath patterns =
     list_ex (\<lambda>p. folderPath = p \<or> (endsWith p ''/*'' \<and> startsWith folderPath (slice p 0 (- 2))))
       patterns"

section \<open>A failing invocation in the words of the specification\<close>

text \<open>
  The specification counts as a failure of the invocation that the tool is not found, so
  that the call throws, and that the tool exits abnormally; the exit with which the tool
  says that it found nothing is benign. The tool exits with \<open>0\<close> when it found
  something and with \<open>1\<close> when it found nothing.
\<close>

definition invocationFails :: "shellResult \<Rightarrow> bool" where
  "invocationFails r =
     (case r of
        ShellThrows \<Rightarrow> True
      | ShellFalsy \<Rightarrow> False
      | ShellReturns result \<Rightarrow> code result \<noteq> 0 \<and> code result \<noteq> 1)"

section \<open>Sample inputs\<close>

text \<open>
  For running the model: the case mapping and the canonical form restricted to text in
  ASCII, where \<^verbatim>\<open>toLowerCase\<close> maps the capital letters to the small ones and the
  canonical form of a small letter is its capital.
\<close>

definition asciiToLowerChar :: "char \<Rightarrow> char" where
  "asciiToLowerChar c =
     (let n = (of_char c :: nat) in if 65 \<le> n \<and> n \<le> 90 then char_of (n + 32) else c)"

definition asciiToLowerCase :: caseMapping where
  "asciiToLowerCase s = map asciiToLowerChar s"

definition asciiCanonicalize :: "char \<Rightarrow> char" where
  "asciiCanonicalize c =
     (let n = (of_char c :: nat) in if 97 \<le> n \<and> n \<le> 122 then char_of (n - 32) else c)"

text \<open>
  The configuration \<^verbatim>\<open>{}\<close> that \<^verbatim>\<open>system.getSpaceConfig("grep", {})\<close> gives when
  nothing is configured, and outputs of the external tool for small trees.
\<close>

definition emptyConfig :: grepConfig where
  "emptyConfig = \<lparr>smartCase = None, surround = None, saveResults = None, ignoreFolders = None\<rparr>"

definition todoOutput :: string where
  "todoOutput =
     ''b.md'' @ [newline] @ ''12:1:todo'' @ [newline, newline]
     @ ''notes/a.md'' @ [newline] @ ''1:3:a todo item'' @ [newline]
     @ ''2:9:another TODO here todo'' @ [newline]"

definition reservedOutput :: string where
  "reservedOutput =
     ''GREP RESULT.md'' @ [newline] @ ''3:7:* [[notes/a@L1C3|L1C3]]: a >>>todo<<< item''
     @ [newline, newline]
     @ ''notes/a.md'' @ [newline] @ ''1:3:a todo item'' @ [newline]"

definition archiveOutput :: string where
  "archiveOutput =
     ''archive/old.md'' @ [newline] @ ''4:1:todo later'' @ [newline, newline]
     @ ''notes/a.md'' @ [newline] @ ''1:3:a todo item'' @ [newline]"

definition emptyHost :: host where
  "emptyHost = \<lparr>storedArguments = None, currentPage = [], pageText = Map.empty, flashed = []\<rparr>"

definition archiveConfig :: grepConfig where
  "archiveConfig = emptyConfig\<lparr>ignoreFolders := Some [''archive/*'']\<rparr>"

text \<open>
  An output of the tool that reports a line on which the literal text \<^verbatim>\<open>-e\<close> does not
  occur. (The pattern is handed to the tool as an argument of its own, unprotected; the
  tool has an option of that name, which takes the next argument, \<^verbatim>\<open>--\<close>, for the
  pattern.)
\<close>

definition dashOutput :: string where
  "dashOutput = ''notes/a.md'' @ [newline] @ ''3:5:see --help'' @ [newline]"

definition runThrows :: "string \<Rightarrow> string list \<Rightarrow> shellResult" where
  "runThrows command args = ShellThrows"

definition runEmpty :: "string \<Rightarrow> string list \<Rightarrow> shellResult" where
  "runEmpty command args = ShellReturns \<lparr>stdout = [], stderr = [], code = 1\<rparr>"

text \<open>The tool rejects the extended regular expression \<^verbatim>\<open>(\<close> and exits with \<open>128\<close>.\<close>

definition runFatal :: "string \<Rightarrow> string list \<Rightarrow> shellResult" where
  "runFatal command args =
     ShellReturns \<lparr>stdout = [], stderr = ''fatal: command line, unmatched parenthesis'',
                   code = 128\<rparr>"

definition runTodo :: "string \<Rightarrow> string list \<Rightarrow> shellResult" where
  "runTodo command args = ShellReturns \<lparr>stdout = todoOutput, stderr = [], code = 0\<rparr>"

definition runDash :: "string \<Rightarrow> string list \<Rightarrow> shellResult" where
  "runDash command args = ShellReturns \<lparr>stdout = dashOutput, stderr = [], code = 0\<rparr>"

section \<open>Facts about the primitives\<close>

lemma splitOn_not_Nil: "splitOn sep s \<noteq> []"
  by (induction sep s rule: splitOn.induct) (auto split: list.splits)

lemma split_not_Nil: "sep \<noteq> [] \<Longrightarrow> split s sep \<noteq> []"
  by (simp add: split_def splitOn_not_Nil)

lemma splitOn_char: "c \<notin> set xs \<Longrightarrow> splitOn [c] (xs @ c # ys) = xs # splitOn [c] ys"
  by (induction xs) auto

lemma isDigit_colon: "\<not> isDigit (CHR '':'')"
  by (simp add: isDigit_def)

text \<open>A line that passes the location test is digits, a colon, digits, a colon, and a rest.\<close>

lemma locationMatch_shape:
  assumes "locationMatch line"
  shows "\<exists>ds1 ds2 rest. line = ds1 @ CHR '':'' # ds2 @ CHR '':'' # rest
            \<and> ds1 \<noteq> [] \<and> ds2 \<noteq> [] \<and> (\<forall>c\<in>set ds1. isDigit c) \<and> (\<forall>c\<in>set ds2. isDigit c)"
proof -
  obtain after1 where r1: "dropWhile isDigit line = CHR '':'' # after1"
    and d1: "takeWhile isDigit line \<noteq> []"
    and d2: "takeWhile isDigit after1 \<noteq> []"
    and rest2: "\<exists>after2. dropWhile isDigit after1 = CHR '':'' # after2"
    using assms by (auto simp: locationMatch_def Let_def split: list.splits)
  from rest2 obtain after2 where r2: "dropWhile isDigit after1 = CHR '':'' # after2" by blast
  have "line = takeWhile isDigit line @ dropWhile isDigit line" by simp
  also have "\<dots> = takeWhile isDigit line @ CHR '':'' # after1" by (simp only: r1)
  also have "after1 = takeWhile isDigit after1 @ dropWhile isDigit after1" by simp
  also have "\<dots> = takeWhile isDigit after1 @ CHR '':'' # after2" by (simp only: r2)
  finally have "line = takeWhile isDigit line @ CHR '':'' # takeWhile isDigit after1 @ CHR '':'' # after2" .
  moreover have "\<forall>c\<in>set (takeWhile isDigit line). isDigit c" by (auto dest: set_takeWhileD)
  moreover have "\<forall>c\<in>set (takeWhile isDigit after1). isDigit c" by (auto dest: set_takeWhileD)
  ultimately show ?thesis using d1 d2 by blast
qed

lemma locationMatch_split:
  assumes "locationMatch line"
  shows "\<exists>p0 p1 ps. split line '':'' = p0 # p1 # ps"
proof -
  from locationMatch_shape [OF assms] obtain ds1 ds2 rest where
    line: "line = ds1 @ CHR '':'' # ds2 @ CHR '':'' # rest"
    and dig: "\<forall>c\<in>set ds1. isDigit c" "\<forall>c\<in>set ds2. isDigit c" by blast
  have "CHR '':'' \<notin> set ds1" "CHR '':'' \<notin> set ds2"
    using dig isDigit_colon by blast+
  then have "splitOn '':'' line = ds1 # ds2 # splitOn '':'' rest"
    unfolding line by (simp add: splitOn_char)
  then show ?thesis by (simp add: split_def)
qed

lemma substring_prefix: "substring ctx 0 start = take start ctx"
  by (simp add: substring_def Let_def min_def)

lemma substring_span:
  "start \<le> stop \<Longrightarrow> substring ctx start stop = take (stop - start) (drop start ctx)"
  by (auto simp: substring_def Let_def min_def max_def)

lemma substringFrom_drop: "substringFrom ctx start = drop start ctx"
  by (simp add: substringFrom_def min_def)

lemma slice_strip: "slice s 0 (- 2) = take (length s - 2) s"
proof -
  have "nat (max (int (length s) - 2) 0) = length s - 2" by linarith
  then show ?thesis by (simp add: slice_def sliceIndex_def Let_def numeral_2_eq_2)
qed

lemma startsWith_take: "startsWith s (take n s)"
  by (simp add: startsWith_def min_def take_all)

lemma drop_shift: "i < k \<Longrightarrow> drop (k - i) (x # xs) = drop (k - Suc i) xs"
proof -
  assume "i < k"
  then have "k - i = Suc (k - Suc i)" by simp
  then show ?thesis by simp
qed

section \<open>Facts about the engine for escaped literals\<close>

text \<open>Every source that \<open>escapeRegExp\<close> produces is accepted, and stands for the text escaped.\<close>

lemma backslash_special: "regexSpecial backslash"
  by (simp add: regexSpecial_def)

lemma unescapeLiteral_plain:
  "\<not> regexSpecial c \<Longrightarrow> unescapeLiteral (c # rest) = map_option ((#) c) (unescapeLiteral rest)"
  using backslash_special by (cases rest) auto

lemma unescapeLiteral_escaped:
  "regexSpecial c \<Longrightarrow>
     unescapeLiteral (backslash # c # rest) = map_option ((#) c) (unescapeLiteral rest)"
  by simp

lemma unescape_escapeRegExp: "unescapeLiteral (escapeRegExp s) = Some s"
proof (induction s)
  case Nil
  then show ?case by (simp add: escapeRegExp_def)
next
  case (Cons c cs)
  have step: "escapeRegExp (c # cs)
      = (if regexSpecial c then [backslash, c] else [c]) @ escapeRegExp cs"
    by (simp add: escapeRegExp_def)
  show ?case
  proof (cases "regexSpecial c")
    case True
    then have "unescapeLiteral (escapeRegExp (c # cs))
        = map_option ((#) c) (unescapeLiteral (escapeRegExp cs))"
      by (simp add: step unescapeLiteral_escaped del: unescapeLiteral.simps)
    then show ?thesis by (simp add: Cons.IH)
  next
    case False
    then have "unescapeLiteral (escapeRegExp (c # cs))
        = map_option ((#) c) (unescapeLiteral (escapeRegExp cs))"
      by (simp add: step unescapeLiteral_plain del: unescapeLiteral.simps)
    then show ?thesis by (simp add: Cons.IH)
  qed
qed

lemma literalEngine_literal:
  "literalEngine canon (innerRegex cs True pat) = Some (findAll canon (\<not> cs) pat 0)"
  by (simp add: literalEngine_def innerRegex_def unescape_escapeRegExp)

text \<open>
  Each occurrence that the scan reports lies in the string and is a match of the literal
  there; the occurrences come in increasing order and do not overlap.
\<close>

lemma findAll_sound:
  "occ \<in> set (findAll canon ic lit i s) \<Longrightarrow>
     i \<le> index occ \<and> index occ + length lit \<le> i + length s
     \<and> matched occ = take (length lit) (drop (index occ - i) s)
     \<and> matchesAt canon ic lit (drop (index occ - i) s)"
proof (induction canon ic lit i s rule: findAll.induct)
  case (1 canon ic lit i)
  then show ?case by (auto simp: matchesAt_def split: if_splits)
next
  case (2 canon ic lit i x xs)
  show ?case
  proof (cases "matchesAt canon ic lit (x # xs)")
    case False
    with 2 have "occ \<in> set (findAll canon ic lit (i + 1) xs)" by simp
    from "2.IH"(3) [OF False this] show ?thesis
      by (auto simp: drop_shift)
  next
    case True
    note m = True
    show ?thesis
    proof (cases "occ = \<lparr>index = i, matched = take (length lit) (x # xs)\<rparr>")
      case True
      with m show ?thesis by (auto simp: matchesAt_def)
    next
      case False
      show ?thesis
      proof (cases "lit = []")
        case True
        with 2 m False have "occ \<in> set (findAll canon ic lit (i + 1) xs)" by simp
        from "2.IH"(1) [OF m True this] True show ?thesis
          by (auto simp: drop_shift)
      next
        case nonempty: False
        with 2 m False
        have mem: "occ \<in> set (findAll canon ic lit (i + length lit) (drop (length lit) (x # xs)))"
          by simp
        from m have len: "length lit \<le> length (x # xs)" by (simp add: matchesAt_def)
        from "2.IH"(2) [OF m nonempty mem] len
        have a: "i + length lit \<le> index occ"
          and b: "index occ + length lit \<le> i + length (x # xs)"
          and c: "matched occ = take (length lit)
                    (drop (index occ - (i + length lit)) (drop (length lit) (x # xs)))"
          and d: "matchesAt canon ic lit
                    (drop (index occ - (i + length lit)) (drop (length lit) (x # xs)))"
          by auto
        have e: "drop (index occ - (i + length lit)) (drop (length lit) (x # xs))
            = drop (index occ - i) (x # xs)"
          using a by (simp del: drop_Suc_Cons add: add.commute)
        show ?thesis using a b c d unfolding e by simp
      qed
    qed
  qed
qed

lemma findAll_ordered:
  "sorted_wrt (\<lambda>a b. index a + length (matched a) \<le> index b \<and> index a < index b)
     (findAll canon ic lit i s)"
proof (induction canon ic lit i s rule: findAll.induct)
  case (1 canon ic lit i)
  then show ?case by simp
next
  case (2 canon ic lit i x xs)
  show ?case
  proof (cases "matchesAt canon ic lit (x # xs)")
    case False
    with "2.IH"(3) show ?thesis by simp
  next
    case True
    note m = True
    then have len: "length (take (length lit) (x # xs)) = length lit"
      by (simp add: matchesAt_def del: take_Suc_Cons)
    show ?thesis
    proof (cases "lit = []")
      case True
      have "\<forall>b \<in> set (findAll canon ic lit (i + 1) xs). i < index b"
        by (auto dest!: findAll_sound)
      with "2.IH"(1) [OF m True] m True show ?thesis by (auto simp: less_imp_le)
    next
      case False
      have pos: "0 < length lit" using False by simp
      have later: "\<forall>b \<in> set (findAll canon ic lit (i + length lit) (drop (length lit) (x # xs))).
          i + length lit \<le> index b \<and> i < index b"
      proof
        fix b
        assume "b \<in> set (findAll canon ic lit (i + length lit) (drop (length lit) (x # xs)))"
        then have "i + length lit \<le> index b"
          by (rule findAll_sound [THEN conjunct1])
        with pos show "i + length lit \<le> index b \<and> i < index b"
          by linarith
      qed
      have "findAll canon ic lit i (x # xs) = \<lparr>index = i, matched = take (length lit) (x # xs)\<rparr>
          # findAll canon ic lit (i + length lit) (drop (length lit) (x # xs))"
        using m False by simp
      then show ?thesis
        using "2.IH"(2) [OF m False] later len by simp
    qed
  qed
qed

section \<open>Facts about numerals and hit lines\<close>

lemma of_char_digitChar: "d < 10 \<Longrightarrow> (of_char (digitChar d) :: nat) = 48 + d"
  by (simp add: digitChar_def)

lemma isDigit_digitChar: "d < 10 \<Longrightarrow> isDigit (digitChar d)"
  by (simp add: isDigit_def of_char_digitChar)

lemma digitValue_digitChar: "d < 10 \<Longrightarrow> digitValue (digitChar d) = d"
  by (simp add: digitValue_def of_char_digitChar)

lemma toString_digits: "c \<in> set (toString n) \<Longrightarrow> isDigit c"
proof (induction n arbitrary: c rule: toString.induct)
  case (1 n)
  show ?case
  proof (cases "n < 10")
    case True
    with "1.prems" show ?thesis
      by (simp add: toString.simps [of n] isDigit_digitChar)
  next
    case False
    with "1.prems" have "c \<in> set (toString (n div 10)) \<or> c = digitChar (n mod 10)"
      by (auto simp: toString.simps [of n])
    with "1.IH" [OF False] show ?thesis
      by (auto simp: isDigit_digitChar)
  qed
qed

lemma toString_not_Nil: "toString n \<noteq> []"
  by (simp add: toString.simps [of n])

lemma foldl_toString:
  "foldl (\<lambda>n c. 10 * n + digitValue c) 0 (toString n) = n"
proof (induction n rule: toString.induct)
  case (1 n)
  show ?case
  proof (cases "n < 10")
    case True
    then show ?thesis
      by (simp add: toString.simps [of n] digitValue_digitChar)
  next
    case False
    with "1.IH" show ?thesis
      by (simp add: toString.simps [of n] digitValue_digitChar)
  qed
qed

lemma takeWhile_digits_toString: "takeWhile isDigit (toString n @ CHR '':'' # rest) = toString n"
  by (simp add: takeWhile_append2 toString_digits isDigit_colon)

lemma dropWhile_digits_toString:
  "dropWhile isDigit (toString n @ CHR '':'' # rest) = CHR '':'' # rest"
  by (simp add: dropWhile_append2 toString_digits isDigit_colon)

lemma parseInt_toString: "parseInt (toString n) = n"
proof -
  have tw: "takeWhile isDigit (toString n) = toString n"
    by (simp add: takeWhile_eq_all_conv toString_digits)
  show ?thesis
    unfolding parseInt_def tw by (rule foldl_toString)
qed

lemma colon_notin_toString: "CHR '':'' \<notin> set (toString n)"
  using toString_digits isDigit_colon by blast

text \<open>A hit line passes the location test, and its context is found again.\<close>

lemma locationMatch_hitLine: "locationMatch (hitLine ln col ctx)"
  by (simp add: locationMatch_def hitLine_def Let_def takeWhile_digits_toString
        dropWhile_digits_toString toString_not_Nil)

lemma split_hitLine:
  "split (hitLine ln col ctx) '':'' = toString ln # toString col # splitOn '':'' ctx"
  by (simp add: split_def hitLine_def splitOn_char colon_notin_toString)

lemma substringFrom_hitLine:
  "k = length (toString ln) + length (toString col) + 2 \<Longrightarrow>
     substringFrom (hitLine ln col ctx) k = ctx"
  by (simp add: substringFrom_drop hitLine_def)

lemma lineMatches_hitLine:
  "lineMatches m left right (hitLine ln col ctx) = refine m left right ln ctx"
  by (simp add: lineMatches_def locationMatch_hitLine split_hitLine parseInt_toString
        substringFrom_hitLine)

lemma lineMatches_other: "\<not> locationMatch line \<Longrightarrow> lineMatches m left right line = []"
  by (simp add: lineMatches_def)

section \<open>The occurrences of a literal\<close>

lemma findAll_complete:
  "lit \<noteq> [] \<Longrightarrow> matchesAt canon ic lit (drop q s) \<Longrightarrow>
     \<exists>occ \<in> set (findAll canon ic lit i s). index occ \<le> i + q \<and> i + q < index occ + length lit"
proof (induction canon ic lit i s arbitrary: q rule: findAll.induct)
  case (1 canon ic lit i)
  then show ?case by (simp add: matchesAt_def)
next
  case (2 canon ic lit i x xs)
  show ?case
  proof (cases "matchesAt canon ic lit (x # xs)")
    case True
    show ?thesis
    proof (cases "q < length lit")
      case True
      with \<open>matchesAt canon ic lit (x # xs)\<close> show ?thesis by simp
    next
      case False
      then have split_drop: "drop q (x # xs) = drop (q - length lit) (drop (length lit) (x # xs))"
        by (simp del: drop_Suc_Cons)
      from "2.prems"(2) have "matchesAt canon ic lit (drop (q - length lit) (drop (length lit) (x # xs)))"
        by (simp only: split_drop)
      from "2.IH"(2) [OF True "2.prems"(1) "2.prems"(1) this]
      obtain occ where
        "occ \<in> set (findAll canon ic lit (i + length lit) (drop (length lit) (x # xs)))"
        "index occ \<le> i + length lit + (q - length lit)"
        "i + length lit + (q - length lit) < index occ + length lit"
        by blast
      with True "2.prems"(1) False show ?thesis
        by (auto simp del: drop_Suc_Cons)
    qed
  next
    case False
    show ?thesis
    proof (cases q)
      case 0
      with "2.prems"(2) False show ?thesis by simp
    next
      case (Suc q')
      with "2.prems"(2) have "matchesAt canon ic lit (drop q' xs)" by simp
      from "2.IH"(3) [OF False "2.prems"(1) this] Suc False show ?thesis
        by auto
    qed
  qed
qed

lemma literalOccurrences_findAll:
  assumes "lit \<noteq> []"
  shows "literalOccurrences canon ic lit ctx (findAll canon ic lit 0 ctx)"
proof -
  have genuine: "\<forall>occ \<in> set (findAll canon ic lit 0 ctx).
      index occ + length lit \<le> length ctx
      \<and> matched occ = take (length lit) (drop (index occ) ctx)
      \<and> matchesAt canon ic lit (drop (index occ) ctx)"
    using findAll_sound [of _ canon ic lit 0 ctx] by auto
  have len: "length (matched occ) = length lit" if "occ \<in> set (findAll canon ic lit 0 ctx)" for occ
    using genuine that by (auto simp: min_def)
  have ordered: "sorted_wrt (\<lambda>a b. index a + length lit \<le> index b) (findAll canon ic lit 0 ctx)"
    by (rule sorted_wrt_mono_rel [OF _ findAll_ordered]) (simp add: len)
  have covered: "\<forall>q \<le> length ctx. matchesAt canon ic lit (drop q ctx) \<longrightarrow>
      (\<exists>occ \<in> set (findAll canon ic lit 0 ctx). index occ \<le> q \<and> q < index occ + length lit)"
    using findAll_complete [OF assms, of canon ic _ ctx 0] by auto
  from genuine ordered covered show ?thesis
    by (simp add: literalOccurrences_def)
qed

section \<open>Facts about the report\<close>

text \<open>The sort with the comparator of \<^verbatim>\<open>grep\<close> is the library's stable sort by key.\<close>

lemma insertBy_insort_key:
  "insertBy compareMatchCount x ys = insort_key (\<lambda>fm. - int (length (matches fm))) x ys"
  by (induction ys) (auto simp: compareMatchCount_def)

lemma sortBy_sort_key:
  "sortBy compareMatchCount xs = sort_key (\<lambda>fm. - int (length (matches fm))) xs"
proof -
  have "insertBy compareMatchCount = insort_key (\<lambda>fm. - int (length (matches fm)))"
    by (intro ext) (rule insertBy_insort_key)
  then show ?thesis by (simp add: sortBy_def sort_key_def)
qed

lemma set_documentResults:
  "set (documentResults m config output) = set (collectFileMatches m config output)"
  by (simp add: documentResults_def sortBy_sort_key)

lemma collectFileMatches_member:
  "fm \<in> set (collectFileMatches m config output) \<longleftrightarrow>
     (\<exists>fileOutput \<in> set (split output [newline, newline]).
        scanFileOutput m config fileOutput = Some fm)"
  by (force simp: collectFileMatches_def map_filter_def)

lemma scanFileOutput_Some:
  assumes "scanFileOutput m config fileOutput = Some fm"
  shows "page fm \<noteq> resultPageSaved" "page fm \<noteq> resultPageVirtual"
    "\<not> shouldIgnoreFolder (folderOf (page fm)) config"
  using assms
  by (auto simp: scanFileOutput_def Let_def split: list.splits if_splits)

lemma scanFileOutput_matches:
  assumes "scanFileOutput m config fileOutput = Some fm"
  shows "\<exists>header body. split fileOutput [newline] = header # body
           \<and> matches fm
               = concat (map (lineMatches m (surroundLeft config) (surroundRight config)) body)"
  using assms
  by (auto simp: scanFileOutput_def Let_def split: list.splits if_splits)

lemma surroundOccurrence_eq:
  "surroundOccurrence left right ln ctx occ =
     \<lparr>lineNum = ln, columnNum = index occ + 1,
      highlightedContext = take (index occ) ctx @ left
        @ take (length (matched occ)) (drop (index occ) ctx) @ right
        @ drop (index occ + length (matched occ)) ctx\<rparr>"
  by (simp add: surroundOccurrence_def Let_def substring_prefix substring_span substringFrom_drop)

lemma matchesIgnorePattern_cases:
  "matchesIgnorePattern np p \<longleftrightarrow>
     np = normalizePath p
     \<or> (endsWith (normalizePath p) ''/*'' \<and> startsWith np (slice (normalizePath p) 0 (- 2)))"
proof (cases "endsWith (normalizePath p) ''/*''")
  case True
  have "startsWith (normalizePath p) (slice (normalizePath p) 0 (- 2))"
    by (simp add: slice_strip startsWith_take)
  with True show ?thesis
    by (auto simp: matchesIgnorePattern_def Let_def)
next
  case False
  then show ?thesis
    by (simp add: matchesIgnorePattern_def Let_def)
qed

text \<open>The groups that the loop over \<^verbatim>\<open>fileOutputs\<close> keeps, with the tests written out.\<close>

lemma scanFileOutput_iff:
  "scanFileOutput m config fileOutput = Some fm \<longleftrightarrow>
     (\<exists>header body.
        split fileOutput [newline] = header # body
        \<and> endsWith header ''.md''
        \<and> \<not> shouldIgnoreFolder (folderOf (normalizePath (slice header 0 (- 3)))) config
        \<and> normalizePath (slice header 0 (- 3)) \<noteq> resultPageSaved
        \<and> normalizePath (slice header 0 (- 3)) \<noteq> resultPageVirtual
        \<and> fm = \<lparr>page = normalizePath (slice header 0 (- 3)),
                 matches = concat (map (lineMatches m (surroundLeft config)
                                          (surroundRight config)) body)\<rparr>)"
  by (cases "split fileOutput [newline]") (auto simp: scanFileOutput_def Let_def)

lemma documentResults_member:
  "fm \<in> set (documentResults m config output) \<longleftrightarrow>
     (\<exists>fileOutput header body.
        fileOutput \<in> set (split output [newline, newline])
        \<and> split fileOutput [newline] = header # body
        \<and> endsWith header ''.md''
        \<and> \<not> shouldIgnoreFolder (folderOf (normalizePath (slice header 0 (- 3)))) config
        \<and> normalizePath (slice header 0 (- 3)) \<noteq> resultPageSaved
        \<and> normalizePath (slice header 0 (- 3)) \<noteq> resultPageVirtual
        \<and> fm = \<lparr>page = normalizePath (slice header 0 (- 3)),
                 matches = concat (map (lineMatches m (surroundLeft config)
                                          (surroundRight config)) body)\<rparr>)"
  unfolding set_documentResults collectFileMatches_member scanFileOutput_iff by blast

lemma refine_eq:
  "refine m left right ln ctx =
     map (\<lambda>occ. \<lparr>lineNum = ln, columnNum = index occ + 1,
                  highlightedContext = take (index occ) ctx @ left
                    @ take (length (matched occ)) (drop (index occ) ctx) @ right
                    @ drop (index occ + length (matched occ)) ctx\<rparr>) (m ctx)"
  by (simp add: refine_def surroundOccurrence_eq)

text \<open>
  What \<^verbatim>\<open>grep\<close> returns, when it returns a text, is the rendering of
  \<open>documentResults\<close>, for the output of the tool and the occurrences of the engine.
\<close>

lemma grep_renders_documentResults:
  assumes "grep lower E config run pat literal folder = Inr out" and "returned out = Some text"
  shows "\<exists>p matchAll.
           run ''git'' (gitArgs (caseSensitive lower config pat) literal pat folder) = ShellReturns p
           \<and> stdout p \<noteq> []
           \<and> E (innerRegex (caseSensitive lower config pat) literal pat) = Some matchAll
           \<and> text = renderReport literal pat folder (documentResults matchAll config (stdout p))"
  using assms
  by (auto simp: grep_def Let_def split: shellResult.splits if_splits option.splits)

lemma grep_report:
  assumes "run ''git'' (gitArgs (caseSensitive lower config pat) literal pat folder) = ShellReturns p"
    and "stdout p \<noteq> []"
    and "E (innerRegex (caseSensitive lower config pat) literal pat) = Some matchAll"
  shows "grep lower E config run pat literal folder
           = Inr \<lparr>notified = [],
                  returned = Some (renderReport literal pat folder
                                     (documentResults matchAll config (stdout p)))\<rparr>"
  using assms by (simp add: grep_def Let_def)

text \<open>The sample search for the literal text \<^verbatim>\<open>todo\<close>.\<close>

lemma caseSensitive_todo: "\<not> caseSensitive asciiToLowerCase emptyConfig ''todo''"
  by code_simp

lemma grep_todo:
  "grep asciiToLowerCase (literalEngine asciiCanonicalize) emptyConfig runTodo ''todo'' True ''.''
     = Inr \<lparr>notified = [],
            returned = Some (renderReport True ''todo'' ''.''
                               (documentResults (findAll asciiCanonicalize True ''todo'' 0)
                                  emptyConfig todoOutput))\<rparr>"
proof -
  have "todoOutput \<noteq> []"
    by (simp add: todoOutput_def)
  then show ?thesis
    using grep_report [of runTodo asciiToLowerCase emptyConfig "''todo''" True "''.''"
        "\<lparr>stdout = todoOutput, stderr = [], code = 0\<rparr>" "literalEngine asciiCanonicalize"
        "findAll asciiCanonicalize True ''todo'' 0"]
    by (simp add: runTodo_def caseSensitive_todo literalEngine_literal)
qed

lemma returned_todo:
  "returned \<lparr>notified = [],
        returned = Some (renderReport True ''todo'' ''.''
                           (documentResults (findAll asciiCanonicalize True ''todo'' 0)
                              emptyConfig todoOutput))\<rparr>
      = Some (renderReport True ''todo'' ''.''
                (documentResults (findAll asciiCanonicalize True ''todo'' 0)
                   emptyConfig todoOutput))"
  by simp

lemma runTodo_returns:
  "runTodo command args = ShellReturns p \<Longrightarrow> stdout p = todoOutput"
  by (auto simp: runTodo_def)

lemma engine_todo:
  "literalEngine asciiCanonicalize
      (innerRegex (caseSensitive asciiToLowerCase emptyConfig ''todo'') True ''todo'')
     = Some matchAll \<Longrightarrow> matchAll = findAll asciiCanonicalize True ''todo'' 0"
  by (simp add: literalEngine_literal caseSensitive_todo)

lemma todo_occurrences:
  "findAll asciiCanonicalize True ''todo'' 0 ''another TODO here todo''
     = [\<lparr>index = 8, matched = ''TODO''\<rparr>, \<lparr>index = 18, matched = ''todo''\<rparr>]"
  by code_simp

lemma documentResults_sources:
  assumes "fm \<in> set (documentResults m config output)"
  shows "\<exists>fileOutput header body.
           fileOutput \<in> set (split output [newline, newline])
           \<and> split fileOutput [newline] = header # body
           \<and> matches fm
               = concat (map (lineMatches m (surroundLeft config) (surroundRight config)) body)"
  using assms unfolding documentResults_member by force

section \<open>Case sensitivity\<close>

lemma map_changes: "map f xs \<noteq> xs \<longleftrightarrow> (\<exists>x\<in>set xs. f x \<noteq> x)"
  by (induction xs) auto

lemma gitArgs_options:
  "\<exists>opts mode path. gitArgs cs literal pat folder = opts @ [mode, pat, ''--'', path]
      \<and> (''--ignore-case'' \<in> set opts \<longleftrightarrow> \<not> cs)"
proof (cases cs)
  case True
  have "gitArgs cs literal pat folder =
      [''-c'', ''core.quotePath=false'', ''grep'', ''--heading'', ''--break'',
       ''--line-number'', ''--column'', ''--no-color'', ''--no-index'']
      @ [if literal then ''--fixed-strings'' else ''--extended-regexp'', pat, ''--'',
         folder @ (if endsWith folder ''/'' then [] else ''/'') @ ''*.md'']"
    using True by (simp add: gitArgs_def)
  moreover have "''--ignore-case'' \<notin> set
      [''-c'', ''core.quotePath=false'', ''grep'', ''--heading'', ''--break'',
       ''--line-number'', ''--column'', ''--no-color'', ''--no-index'']"
    by simp
  ultimately show ?thesis using True by blast
next
  case False
  have "gitArgs cs literal pat folder =
      [''-c'', ''core.quotePath=false'', ''grep'', ''--heading'', ''--break'',
       ''--line-number'', ''--column'', ''--no-color'', ''--no-index'', ''--ignore-case'']
      @ [if literal then ''--fixed-strings'' else ''--extended-regexp'', pat, ''--'',
         folder @ (if endsWith folder ''/'' then [] else ''/'') @ ''*.md'']"
    using False by (simp add: gitArgs_def)
  moreover have "''--ignore-case'' \<in> set
      [''-c'', ''core.quotePath=false'', ''grep'', ''--heading'', ''--break'',
       ''--line-number'', ''--column'', ''--no-color'', ''--no-index'', ''--ignore-case'']"
    by simp
  ultimately show ?thesis using False by blast
qed

lemma grep_depends_on_calls:
  "run ''git'' (gitArgs (caseSensitive lower config pat) literal pat folder)
     = run' ''git'' (gitArgs (caseSensitive lower config pat) literal pat folder) \<Longrightarrow>
   E (innerRegex (caseSensitive lower config pat) literal pat)
     = E' (innerRegex (caseSensitive lower config pat) literal pat) \<Longrightarrow>
   grep lower E config run pat literal folder = grep lower E' config run' pat literal folder"
  by (simp add: grep_def Let_def split: shellResult.splits)

text \<open>
  Claim C1. With \<^verbatim>\<open>smartCase\<close> switched off the search is case-sensitive. Otherwise it
  is case-sensitive exactly when the pattern differs from its lower-case form under the
  host's \<^verbatim>\<open>toLowerCase\<close> (which is what the specification means by a pattern that
  contains an upper-case character); where that lower-cases the pattern character by
  character, this is exactly when the pattern has a character that lower-casing changes.
  The resolved flag is applied to both searches: the options of
  the external tool hold \<^verbatim>\<open>--ignore-case\<close> exactly when the search is not
  case-sensitive; the refining regular expression has the flags \<^verbatim>\<open>g\<close> or \<^verbatim>\<open>gi\<close>
  accordingly, and on a literal source the engine compares canonical forms exactly when
  the search is not case-sensitive; and the report that \<^verbatim>\<open>grep\<close> returns is the one
  built from the output of the tool under these options and from the occurrences of this
  regular expression, and depends on the tool and the engine through nothing else.
\<close>

theorem case_sensitivity_resolution:
  "(smartCase config = Some False \<longrightarrow> caseSensitive lower config pat)
   \<and> (smartCase config \<noteq> Some False \<longrightarrow>
        (caseSensitive lower config pat \<longleftrightarrow> lower pat \<noteq> pat))
   \<and> (lower pat = map lc pat \<longrightarrow> (lower pat \<noteq> pat \<longleftrightarrow> (\<exists>c\<in>set pat. lc c \<noteq> c)))
   \<and> (\<exists>opts mode path.
         gitArgs (caseSensitive lower config pat) literal pat folder
           = opts @ [mode, pat, ''--'', path]
         \<and> (''--ignore-case'' \<in> set opts \<longleftrightarrow> \<not> caseSensitive lower config pat))
   \<and> flags (innerRegex (caseSensitive lower config pat) literal pat)
       = (if caseSensitive lower config pat then ''g'' else ''gi'')
   \<and> literalEngine canon (innerRegex (caseSensitive lower config pat) True pat)
       = Some (findAll canon (\<not> caseSensitive lower config pat) pat 0)
   \<and> (\<forall>p matchAll.
         run ''git'' (gitArgs (caseSensitive lower config pat) literal pat folder)
           = ShellReturns p \<longrightarrow>
         stdout p \<noteq> [] \<longrightarrow>
         E (innerRegex (caseSensitive lower config pat) literal pat) = Some matchAll \<longrightarrow>
         grep lower E config run pat literal folder
           = Inr \<lparr>notified = [],
                  returned = Some (renderReport literal pat folder
                                     (documentResults matchAll config (stdout p)))\<rparr>)
   \<and> (\<forall>run' E'.
         run ''git'' (gitArgs (caseSensitive lower config pat) literal pat folder)
           = run' ''git'' (gitArgs (caseSensitive lower config pat) literal pat folder) \<longrightarrow>
         E (innerRegex (caseSensitive lower config pat) literal pat)
           = E' (innerRegex (caseSensitive lower config pat) literal pat) \<longrightarrow>
         grep lower E config run pat literal folder = grep lower E' config run' pat literal folder)"
proof -
  have off: "smartCase config = Some False \<longrightarrow> caseSensitive lower config pat"
    by (simp add: caseSensitive_def resolveSmartCase_def)
  have on: "smartCase config \<noteq> Some False \<longrightarrow>
      (caseSensitive lower config pat \<longleftrightarrow> lower pat \<noteq> pat)"
    by (simp add: caseSensitive_def resolveSmartCase_def)
  have upper: "lower pat = map lc pat \<longrightarrow> (lower pat \<noteq> pat \<longleftrightarrow> (\<exists>c\<in>set pat. lc c \<noteq> c))"
    by (simp add: map_changes)
  have fl: "flags (innerRegex (caseSensitive lower config pat) literal pat)
      = (if caseSensitive lower config pat then ''g'' else ''gi'')"
    by (simp add: innerRegex_def)
  have report: "\<forall>p matchAll.
         run ''git'' (gitArgs (caseSensitive lower config pat) literal pat folder)
           = ShellReturns p \<longrightarrow>
         stdout p \<noteq> [] \<longrightarrow>
         E (innerRegex (caseSensitive lower config pat) literal pat) = Some matchAll \<longrightarrow>
         grep lower E config run pat literal folder
           = Inr \<lparr>notified = [],
                  returned = Some (renderReport literal pat folder
                                     (documentResults matchAll config (stdout p)))\<rparr>"
    using grep_report by blast
  have only: "\<forall>run' E'.
         run ''git'' (gitArgs (caseSensitive lower config pat) literal pat folder)
           = run' ''git'' (gitArgs (caseSensitive lower config pat) literal pat folder) \<longrightarrow>
         E (innerRegex (caseSensitive lower config pat) literal pat)
           = E' (innerRegex (caseSensitive lower config pat) literal pat) \<longrightarrow>
         grep lower E config run pat literal folder = grep lower E' config run' pat literal folder"
    using grep_depends_on_calls by blast
  show ?thesis
    using off on upper fl report only
      gitArgs_options [of "caseSensitive lower config pat" literal pat folder]
      literalEngine_literal [of canon "caseSensitive lower config pat" pat]
    by (intro conjI) assumption+
qed

theorem case_sensitivity_resolution_witness:
  "smartCase emptyConfig \<noteq> Some False
   \<and> asciiToLowerCase ''Todo'' = map asciiToLowerChar ''Todo''
   \<and> (\<exists>c\<in>set ''Todo''. asciiToLowerChar c \<noteq> c)
   \<and> caseSensitive asciiToLowerCase emptyConfig ''Todo''
   \<and> smartCase (emptyConfig\<lparr>smartCase := Some False\<rparr>) = Some False
   \<and> caseSensitive asciiToLowerCase (emptyConfig\<lparr>smartCase := Some False\<rparr>) ''todo''
   \<and> runTodo ''git'' (gitArgs (caseSensitive asciiToLowerCase emptyConfig ''todo'') True ''todo'' ''.'')
       = ShellReturns \<lparr>stdout = todoOutput, stderr = [], code = 0\<rparr>
   \<and> grep asciiToLowerCase (literalEngine asciiCanonicalize) emptyConfig runTodo ''todo'' True ''.''
       = Inr \<lparr>notified = [],
              returned = Some (renderReport True ''todo'' ''.''
                                 (documentResults (findAll asciiCanonicalize True ''todo'' 0)
                                    emptyConfig todoOutput))\<rparr>"
proof -
  have on: "smartCase emptyConfig \<noteq> Some False"
    by (simp add: emptyConfig_def)
  have charwise: "asciiToLowerCase ''Todo'' = map asciiToLowerChar ''Todo''"
    by (simp add: asciiToLowerCase_def)
  have up: "\<exists>c\<in>set ''Todo''. asciiToLowerChar c \<noteq> c"
    by code_simp
  have off: "smartCase (emptyConfig\<lparr>smartCase := Some False\<rparr>) = Some False"
    by simp
  have ran: "runTodo ''git'' (gitArgs (caseSensitive asciiToLowerCase emptyConfig ''todo'') True ''todo'' ''.'')
      = ShellReturns \<lparr>stdout = todoOutput, stderr = [], code = 0\<rparr>"
    by (simp add: runTodo_def)
  have nonempty: "stdout \<lparr>stdout = todoOutput, stderr = [], code = 0\<rparr> \<noteq> []"
    by (simp add: todoOutput_def)
  have eng: "literalEngine asciiCanonicalize
        (innerRegex (caseSensitive asciiToLowerCase emptyConfig ''todo'') True ''todo'')
      = Some (findAll asciiCanonicalize True ''todo'' 0)"
    by (simp add: literalEngine_literal caseSensitive_todo)
  note upper_case = case_sensitivity_resolution
    [where config = emptyConfig and pat = "''Todo''" and lower = asciiToLowerCase
       and lc = asciiToLowerChar]
  note switched_off = case_sensitivity_resolution
    [where config = "emptyConfig\<lparr>smartCase := Some False\<rparr>" and pat = "''todo''"
       and lower = asciiToLowerCase]
  note search = case_sensitivity_resolution
    [where config = emptyConfig and pat = "''todo''" and lower = asciiToLowerCase
       and run = runTodo and E = "literalEngine asciiCanonicalize" and literal = True
       and folder = "''.''" and lc = asciiToLowerChar and canon = asciiCanonicalize]
  from upper_case on charwise up have a: "caseSensitive asciiToLowerCase emptyConfig ''Todo''"
    by blast
  from switched_off off
  have b: "caseSensitive asciiToLowerCase (emptyConfig\<lparr>smartCase := Some False\<rparr>) ''todo''"
    by blast
  from search have "\<forall>p matchAll.
         runTodo ''git'' (gitArgs (caseSensitive asciiToLowerCase emptyConfig ''todo'') True ''todo'' ''.'')
           = ShellReturns p \<longrightarrow>
         stdout p \<noteq> [] \<longrightarrow>
         literalEngine asciiCanonicalize
           (innerRegex (caseSensitive asciiToLowerCase emptyConfig ''todo'') True ''todo'')
           = Some matchAll \<longrightarrow>
         grep asciiToLowerCase (literalEngine asciiCanonicalize) emptyConfig runTodo ''todo'' True ''.''
           = Inr \<lparr>notified = [],
                  returned = Some (renderReport True ''todo'' ''.''
                                     (documentResults matchAll emptyConfig (stdout p)))\<rparr>"
    by - (elim conjE, assumption)
  from this [rule_format, OF ran nonempty eng]
  have c: "grep asciiToLowerCase (literalEngine asciiCanonicalize) emptyConfig runTodo ''todo'' True ''.''
       = Inr \<lparr>notified = [],
              returned = Some (renderReport True ''todo'' ''.''
                                 (documentResults (findAll asciiCanonicalize True ''todo'' 0)
                                    emptyConfig todoOutput))\<rparr>"
    by simp
  from on charwise up a off b ran c show ?thesis
    by (intro conjI)
qed

section \<open>Surround markers\<close>

text \<open>
  Claim C10. When \<^verbatim>\<open>surround\<close> is an object, a marker configured as the empty string
  does not switch that marker off: the default \<^verbatim>\<open>>>>\<close> or \<^verbatim>\<open><<<\<close> is used, and
  neither marker is ever empty. Both markers are empty exactly when \<^verbatim>\<open>surround\<close> is
  \<^verbatim>\<open>false\<close>.
\<close>

theorem surround_empty_string_keeps_default:
  "(surround config = Some (SurroundMarkers l r) \<longrightarrow>
      (l = Some [] \<longrightarrow> surroundLeft config = ''>>>'') \<and>
      (r = Some [] \<longrightarrow> surroundRight config = ''<<<'') \<and>
      surroundLeft config \<noteq> [] \<and> surroundRight config \<noteq> [])
   \<and> (surroundLeft config = [] \<and> surroundRight config = []
        \<longleftrightarrow> surround config = Some SurroundFalse)"
  by (auto simp: surroundLeft_def surroundRight_def markerOr_def
           split: option.splits surroundConfig.splits)

theorem surround_empty_string_keeps_default_witness:
  "surround (emptyConfig\<lparr>surround := Some (SurroundMarkers (Some []) (Some []))\<rparr>)
     = Some (SurroundMarkers (Some []) (Some []))
   \<and> surroundLeft (emptyConfig\<lparr>surround := Some (SurroundMarkers (Some []) (Some []))\<rparr>) = ''>>>''
   \<and> surroundRight (emptyConfig\<lparr>surround := Some (SurroundMarkers (Some []) (Some []))\<rparr>) = ''<<<''
   \<and> surround (emptyConfig\<lparr>surround := Some SurroundFalse\<rparr>) = Some SurroundFalse
   \<and> surroundLeft (emptyConfig\<lparr>surround := Some SurroundFalse\<rparr>) = []
   \<and> surroundRight (emptyConfig\<lparr>surround := Some SurroundFalse\<rparr>) = []"
  using surround_empty_string_keeps_default
      [where config = "emptyConfig\<lparr>surround := Some (SurroundMarkers (Some []) (Some []))\<rparr>"
         and l = "Some []" and r = "Some []"]
    surround_empty_string_keeps_default
      [where config = "emptyConfig\<lparr>surround := Some SurroundFalse\<rparr>"]
  by simp

section \<open>The match refiner\<close>

text \<open>
  Claim C2. In every report that \<^verbatim>\<open>grep\<close> returns, the occurrences are those of the
  engine for \<open>innerRegex\<close>, the regular expression built from the pattern, the literal
  flag and the case sensitivity of the external search; the matches of a document are
  those of the lines of its group, in their order; and for every hit line, with line
  number \<open>ln\<close> and context \<open>ctx\<close>, the refiner gives exactly one match for each
  occurrence that the engine finds in \<open>ctx\<close>, in their order: its line is \<open>ln\<close>, its
  column is the start index of the occurrence plus one, and its highlighted context is
  the text before the occurrence, the left marker, the matched part of the line, the
  right marker, and the text after the occurrence. A line without the location prefix
  (digits, a colon, digits, a colon) gives no match. For a literal search the occurrences
  that the engine finds are the occurrences of the pattern in the context, found from the
  left without overlap.
\<close>

theorem refiner_postcondition:
  assumes "grep lower E config run pat literal folder = Inr out"
    and "returned out = Some text"
  shows "\<exists>p matchAll.
      run ''git'' (gitArgs (caseSensitive lower config pat) literal pat folder) = ShellReturns p
    \<and> E (innerRegex (caseSensitive lower config pat) literal pat) = Some matchAll
    \<and> text = renderReport literal pat folder (documentResults matchAll config (stdout p))
    \<and> (\<forall>fm \<in> set (documentResults matchAll config (stdout p)).
          \<exists>fileOutput header body.
            fileOutput \<in> set (split (stdout p) [newline, newline])
            \<and> split fileOutput [newline] = header # body
            \<and> matches fm
                = concat (map (lineMatches matchAll (surroundLeft config) (surroundRight config))
                            body))
    \<and> (\<forall>ln col ctx.
          lineMatches matchAll (surroundLeft config) (surroundRight config) (hitLine ln col ctx)
            = map (\<lambda>occ. \<lparr>lineNum = ln, columnNum = index occ + 1,
                           highlightedContext =
                             take (index occ) ctx @ surroundLeft config
                             @ take (length (matched occ)) (drop (index occ) ctx)
                             @ surroundRight config
                             @ drop (index occ + length (matched occ)) ctx\<rparr>)
                (matchAll ctx))
    \<and> (\<forall>line. \<not> locationMatch line \<longrightarrow>
          lineMatches matchAll (surroundLeft config) (surroundRight config) line = [])
    \<and> (literal \<longrightarrow> pat \<noteq> [] \<longrightarrow> E = literalEngine canon \<longrightarrow>
          (\<forall>ctx. literalOccurrences canon (\<not> caseSensitive lower config pat) pat ctx
                   (matchAll ctx)))"
proof -
  from grep_renders_documentResults [OF assms] obtain p matchAll where
    ran: "run ''git'' (gitArgs (caseSensitive lower config pat) literal pat folder) = ShellReturns p"
    and eng: "E (innerRegex (caseSensitive lower config pat) literal pat) = Some matchAll"
    and rendered: "text = renderReport literal pat folder (documentResults matchAll config (stdout p))"
    by blast
  have docs: "\<forall>fm \<in> set (documentResults matchAll config (stdout p)).
          \<exists>fileOutput header body.
            fileOutput \<in> set (split (stdout p) [newline, newline])
            \<and> split fileOutput [newline] = header # body
            \<and> matches fm
                = concat (map (lineMatches matchAll (surroundLeft config) (surroundRight config))
                            body)"
    using documentResults_sources by blast
  have hits: "\<forall>ln col ctx.
          lineMatches matchAll (surroundLeft config) (surroundRight config) (hitLine ln col ctx)
            = map (\<lambda>occ. \<lparr>lineNum = ln, columnNum = index occ + 1,
                           highlightedContext =
                             take (index occ) ctx @ surroundLeft config
                             @ take (length (matched occ)) (drop (index occ) ctx)
                             @ surroundRight config
                             @ drop (index occ + length (matched occ)) ctx\<rparr>)
                (matchAll ctx)"
    by (simp add: lineMatches_hitLine refine_eq)
  have others: "\<forall>line. \<not> locationMatch line \<longrightarrow>
          lineMatches matchAll (surroundLeft config) (surroundRight config) line = []"
    by (simp add: lineMatches_other)
  have occs: "literal \<longrightarrow> pat \<noteq> [] \<longrightarrow> E = literalEngine canon \<longrightarrow>
          (\<forall>ctx. literalOccurrences canon (\<not> caseSensitive lower config pat) pat ctx
                   (matchAll ctx))"
  proof (intro impI allI)
    fix ctx
    assume "literal" and nonempty: "pat \<noteq> []" and "E = literalEngine canon"
    with eng have "matchAll = findAll canon (\<not> caseSensitive lower config pat) pat 0"
      by (simp add: literalEngine_literal)
    with literalOccurrences_findAll [OF nonempty]
    show "literalOccurrences canon (\<not> caseSensitive lower config pat) pat ctx (matchAll ctx)"
      by simp
  qed
  show ?thesis
    apply (rule exI [of _ p])
    apply (rule exI [of _ matchAll])
    using ran eng rendered docs hits others occs
    apply (intro conjI)
          apply assumption+
    done
qed

theorem refiner_postcondition_witness:
  "lineMatches (findAll asciiCanonicalize True ''todo'' 0) ''>>>'' ''<<<''
       (hitLine 2 9 ''another TODO here todo'')
     = [\<lparr>lineNum = 2, columnNum = 9, highlightedContext = ''another >>>TODO<<< here todo''\<rparr>,
        \<lparr>lineNum = 2, columnNum = 19, highlightedContext = ''another TODO here >>>todo<<<''\<rparr>]
   \<and> literalOccurrences asciiCanonicalize True ''todo'' ''another TODO here todo''
         [\<lparr>index = 8, matched = ''TODO''\<rparr>, \<lparr>index = 18, matched = ''todo''\<rparr>]"
proof -
  have ret: "returned \<lparr>notified = [],
        returned = Some (renderReport True ''todo'' ''.''
                           (documentResults (findAll asciiCanonicalize True ''todo'' 0)
                              emptyConfig todoOutput))\<rparr>
      = Some (renderReport True ''todo'' ''.''
                (documentResults (findAll asciiCanonicalize True ''todo'' 0)
                   emptyConfig todoOutput))"
    by simp
  from refiner_postcondition [OF grep_todo ret, where canon = asciiCanonicalize]
  obtain p matchAll where
    eng: "literalEngine asciiCanonicalize
            (innerRegex (caseSensitive asciiToLowerCase emptyConfig ''todo'') True ''todo'')
          = Some matchAll"
    and hits: "\<forall>ln col ctx.
          lineMatches matchAll (surroundLeft emptyConfig) (surroundRight emptyConfig)
              (hitLine ln col ctx)
            = map (\<lambda>occ. \<lparr>lineNum = ln, columnNum = index occ + 1,
                           highlightedContext =
                             take (index occ) ctx @ surroundLeft emptyConfig
                             @ take (length (matched occ)) (drop (index occ) ctx)
                             @ surroundRight emptyConfig
                             @ drop (index occ + length (matched occ)) ctx\<rparr>)
                (matchAll ctx)"
    and occs: "True \<longrightarrow> ''todo'' \<noteq> [] \<longrightarrow>
          literalEngine asciiCanonicalize = literalEngine asciiCanonicalize \<longrightarrow>
          (\<forall>ctx. literalOccurrences asciiCanonicalize
                   (\<not> caseSensitive asciiToLowerCase emptyConfig ''todo'') ''todo'' ctx
                   (matchAll ctx))"
    by blast
  from eng have m: "matchAll = findAll asciiCanonicalize True ''todo'' 0"
    by (simp add: literalEngine_literal caseSensitive_todo)
  have markers: "surroundLeft emptyConfig = ''>>>''" "surroundRight emptyConfig = ''<<<''"
    by (simp_all add: surroundLeft_def surroundRight_def emptyConfig_def)
  from hits [rule_format, of 2 9 "''another TODO here todo''"]
  have first: "lineMatches (findAll asciiCanonicalize True ''todo'' 0) ''>>>'' ''<<<''
       (hitLine 2 9 ''another TODO here todo'')
     = [\<lparr>lineNum = 2, columnNum = 9, highlightedContext = ''another >>>TODO<<< here todo''\<rparr>,
        \<lparr>lineNum = 2, columnNum = 19, highlightedContext = ''another TODO here >>>todo<<<''\<rparr>]"
    unfolding m markers todo_occurrences by simp
  from occs have "literalOccurrences asciiCanonicalize True ''todo'' ''another TODO here todo''
      (matchAll ''another TODO here todo'')"
    by (simp add: caseSensitive_todo)
  then have second: "literalOccurrences asciiCanonicalize True ''todo'' ''another TODO here todo''
         [\<lparr>index = 8, matched = ''TODO''\<rparr>, \<lparr>index = 18, matched = ''todo''\<rparr>]"
    unfolding m todo_occurrences .
  from first second show ?thesis ..
qed

section \<open>Ranking\<close>

text \<open>
  Claim C3. Every report that \<^verbatim>\<open>grep\<close> returns is the header of the search
  followed by the renderings of its documents, one after the other, in an order in which
  the number of matches descends, and in which the documents with one and the same
  number of matches are in the order in which they were found in the output of the
  external tool.
\<close>

theorem ranking_descending_and_stable:
  assumes "grep lower E config run pat literal folder = Inr out"
    and "returned out = Some text"
  shows "\<exists>p matchAll.
      run ''git'' (gitArgs (caseSensitive lower config pat) literal pat folder) = ShellReturns p
    \<and> E (innerRegex (caseSensitive lower config pat) literal pat) = Some matchAll
    \<and> text = ''Search results for '' @ (if literal then ''text'' else ''pattern'')
        @ '' **`'' @ pat @ ''`**''
        @ (if folder \<noteq> ''.''
           then [newline] @ ''**found inside folder:** '' @ folder @ [newline] else [])
        @ [newline]
        @ join (map renderFileMatch (documentResults matchAll config (stdout p))) [newline]
        @ [newline] @ ''    ''
    \<and> sorted_wrt (\<lambda>a b. length (matches b) \<le> length (matches a))
        (documentResults matchAll config (stdout p))
    \<and> (\<forall>k. filter (\<lambda>fm. length (matches fm) = k) (documentResults matchAll config (stdout p))
           = filter (\<lambda>fm. length (matches fm) = k)
               (collectFileMatches matchAll config (stdout p)))"
proof -
  from grep_renders_documentResults [OF assms] obtain p matchAll where
    ran: "run ''git'' (gitArgs (caseSensitive lower config pat) literal pat folder) = ShellReturns p"
    and eng: "E (innerRegex (caseSensitive lower config pat) literal pat) = Some matchAll"
    and rendered: "text = renderReport literal pat folder (documentResults matchAll config (stdout p))"
    by blast
  from rendered have shape: "text = ''Search results for ''
        @ (if literal then ''text'' else ''pattern'')
        @ '' **`'' @ pat @ ''`**''
        @ (if folder \<noteq> ''.''
           then [newline] @ ''**found inside folder:** '' @ folder @ [newline] else [])
        @ [newline]
        @ join (map renderFileMatch (documentResults matchAll config (stdout p))) [newline]
        @ [newline] @ ''    ''"
    by (simp add: renderReport_def)
  let ?f = "\<lambda>fm. - int (length (matches fm))"
  let ?xs = "collectFileMatches matchAll config (stdout p)"
  have "sorted (map ?f (sort_key ?f ?xs))"
    by (rule sorted_sort_key)
  then have "sorted_wrt (\<lambda>a b. length (matches b) \<le> length (matches a)) (sort_key ?f ?xs)"
    by (simp add: sorted_map)
  then have desc: "sorted_wrt (\<lambda>a b. length (matches b) \<le> length (matches a))
      (documentResults matchAll config (stdout p))"
    by (simp add: documentResults_def sortBy_sort_key)
  have "filter (\<lambda>fm. length (matches fm) = k) (sort_key ?f ?xs)
      = filter (\<lambda>fm. length (matches fm) = k) ?xs" for k
  proof -
    have eq: "(\<lambda>fm. length (matches fm) = k) = (\<lambda>fm. ?f fm = - int k)"
      by auto
    show ?thesis unfolding eq by (rule sort_key_stable)
  qed
  then have stable: "\<forall>k. filter (\<lambda>fm. length (matches fm) = k)
        (documentResults matchAll config (stdout p))
      = filter (\<lambda>fm. length (matches fm) = k) (collectFileMatches matchAll config (stdout p))"
    by (simp add: documentResults_def sortBy_sort_key)
  show ?thesis
    apply (rule exI [of _ p])
    apply (rule exI [of _ matchAll])
    using ran eng shape desc stable
    apply (intro conjI)
        apply assumption+
    done
qed

theorem ranking_descending_and_stable_witness:
  "map (\<lambda>fm. (page fm, length (matches fm)))
       (collectFileMatches (findAll asciiCanonicalize True ''todo'' 0) emptyConfig todoOutput)
     = [(''b'', 1), (''notes/a'', 3)]
   \<and> map (\<lambda>fm. (page fm, length (matches fm)))
         (documentResults (findAll asciiCanonicalize True ''todo'' 0) emptyConfig todoOutput)
     = [(''notes/a'', 3), (''b'', 1)]
   \<and> sorted_wrt (\<lambda>a b. length (matches b) \<le> length (matches a))
         (documentResults (findAll asciiCanonicalize True ''todo'' 0) emptyConfig todoOutput)"
proof -
  have found: "map (\<lambda>fm. (page fm, length (matches fm)))
       (collectFileMatches (findAll asciiCanonicalize True ''todo'' 0) emptyConfig todoOutput)
     = [(''b'', 1), (''notes/a'', 3)]"
    by code_simp
  have ranked: "map (\<lambda>fm. (page fm, length (matches fm)))
         (documentResults (findAll asciiCanonicalize True ''todo'' 0) emptyConfig todoOutput)
     = [(''notes/a'', 3), (''b'', 1)]"
    by code_simp
  from ranking_descending_and_stable [OF grep_todo returned_todo]
  obtain p matchAll where
    ran: "runTodo ''git''
            (gitArgs (caseSensitive asciiToLowerCase emptyConfig ''todo'') True ''todo'' ''.'')
          = ShellReturns p"
    and eng: "literalEngine asciiCanonicalize
            (innerRegex (caseSensitive asciiToLowerCase emptyConfig ''todo'') True ''todo'')
          = Some matchAll"
    and desc: "sorted_wrt (\<lambda>a b. length (matches b) \<le> length (matches a))
        (documentResults matchAll emptyConfig (stdout p))"
    by blast
  from desc have "sorted_wrt (\<lambda>a b. length (matches b) \<le> length (matches a))
         (documentResults (findAll asciiCanonicalize True ''todo'' 0) emptyConfig todoOutput)"
    unfolding runTodo_returns [OF ran] engine_todo [OF eng] .
  with found ranked show ?thesis
    by (intro conjI)
qed

section \<open>Reserved pages\<close>

text \<open>
  Claim C8. Neither the saved result page nor the virtual result page is a document of a
  report, whatever the external tool reports for them.
\<close>

theorem reserved_pages_excluded:
  "\<forall>fm \<in> set (documentResults m config output).
     page fm \<noteq> resultPageSaved \<and> page fm \<noteq> resultPageVirtual"
  using scanFileOutput_Some(1,2)
  by (fastforce simp: set_documentResults collectFileMatches_member)

theorem reserved_pages_excluded_witness:
  "map page (documentResults (findAll asciiCanonicalize True ''todo'' 0) emptyConfig reservedOutput) = [''notes/a'']
   \<and> ''notes/a'' \<noteq> resultPageSaved \<and> ''notes/a'' \<noteq> resultPageVirtual"
proof -
  have pages: "map page (documentResults (findAll asciiCanonicalize True ''todo'' 0) emptyConfig reservedOutput)
      = [''notes/a'']"
    by code_simp
  then have "\<lparr>page = ''notes/a'', matches = matches (hd (documentResults (findAll asciiCanonicalize True ''todo'' 0) emptyConfig reservedOutput))\<rparr>
      \<in> set (documentResults (findAll asciiCanonicalize True ''todo'' 0) emptyConfig reservedOutput)"
    by (cases "documentResults (findAll asciiCanonicalize True ''todo'' 0) emptyConfig reservedOutput") auto
  with reserved_pages_excluded [of "findAll asciiCanonicalize True ''todo'' 0" emptyConfig reservedOutput] pages
  show ?thesis by auto
qed

section \<open>The folder filter\<close>

text \<open>
  Claim C4 as it is worded compares the folder path with the entries of
  \<^verbatim>\<open>ignoreFolders\<close> as they are configured. The source normalizes each entry first, so
  the two differ on an entry that is not in normal form: with the entry
  \<^verbatim>\<open>./archive/*\<close> the source excludes the folder \<^verbatim>\<open>archive/\<close>, which starts with
  \<^verbatim>\<open>archive\<close> but not with \<^verbatim>\<open>./archive\<close>.
\<close>

theorem folder_filter_raw_pattern_counterexample:
  "normalizePath ''archive/'' = ''archive/''
   \<and> shouldIgnoreFolder ''archive/'' (emptyConfig\<lparr>ignoreFolders := Some [''./archive/*'']\<rparr>)
   \<and> \<not> specExcludes ''archive/'' [''./archive/*'']"
  by code_simp

text \<open>
  Claim C4, amended. A document is excluded exactly when its normalized folder path equals
  the normalized form of some entry of \<^verbatim>\<open>ignoreFolders\<close>, or the normalized form of
  some entry ends in \<^verbatim>\<open>/*\<close> and the folder path starts with that form without the
  suffix; that is, the filter is the one the specification words, applied to the
  normalized entries. No document of a report lies in an excluded folder.
\<close>

theorem folder_filter_normalizes_patterns:
  "(shouldIgnoreFolder folderPath config \<longleftrightarrow>
      (\<exists>patterns. ignoreFolders config = Some patterns
         \<and> specExcludes (normalizePath folderPath) (map normalizePath patterns)))
   \<and> (\<forall>fm \<in> set (documentResults m config output).
         \<not> shouldIgnoreFolder (folderOf (page fm)) config)"
proof -
  have "shouldIgnoreFolder folderPath config \<longleftrightarrow>
      (\<exists>patterns. ignoreFolders config = Some patterns
         \<and> specExcludes (normalizePath folderPath) (map normalizePath patterns))"
    by (cases "ignoreFolders config")
       (auto simp: shouldIgnoreFolder_def specExcludes_def list_ex_iff
                   matchesIgnorePattern_cases Let_def)
  moreover have "\<forall>fm \<in> set (documentResults m config output).
      \<not> shouldIgnoreFolder (folderOf (page fm)) config"
    using scanFileOutput_Some(3)
    by (fastforce simp: set_documentResults collectFileMatches_member)
  ultimately show ?thesis by blast
qed

theorem folder_filter_normalizes_patterns_witness:
  "shouldIgnoreFolder ''archive/'' archiveConfig
   \<and> specExcludes (normalizePath ''archive/'') (map normalizePath [''archive/*''])
   \<and> map page (documentResults (findAll asciiCanonicalize True ''todo'' 0) archiveConfig archiveOutput) = [''notes/a'']
   \<and> \<not> shouldIgnoreFolder (folderOf ''notes/a'') archiveConfig"
proof -
  have cfg: "ignoreFolders archiveConfig = Some [''archive/*'']"
    by (simp add: archiveConfig_def)
  have ex: "specExcludes (normalizePath ''archive/'') (map normalizePath [''archive/*''])"
    by code_simp
  have pages: "map page (documentResults (findAll asciiCanonicalize True ''todo'' 0) archiveConfig archiveOutput)
      = [''notes/a'']"
    by code_simp
  then obtain fm where
    fm: "documentResults (findAll asciiCanonicalize True ''todo'' 0) archiveConfig archiveOutput = [fm]"
    and pg: "page fm = ''notes/a''"
    by auto
  note inst = folder_filter_normalizes_patterns
    [of "''archive/''" archiveConfig "findAll asciiCanonicalize True ''todo'' 0" archiveOutput]
  from inst cfg ex have "shouldIgnoreFolder ''archive/'' archiveConfig" by blast
  moreover from inst fm pg have "\<not> shouldIgnoreFolder (folderOf ''notes/a'') archiveConfig"
    by auto
  ultimately show ?thesis using ex pages by blast
qed

section \<open>The commands\<close>

text \<open>
  Claim C5 says that the command for literal text in the current folder issues a query
  with the literal flag set. The source passes \<^verbatim>\<open>false\<close> there: on the page
  \<^verbatim>\<open>notes/x\<close>, with \<^verbatim>\<open>a.b\<close> typed at the prompt "Literal text:", the call is
  \<^verbatim>\<open>openGrep("a.b", false, "notes/")\<close>, whereas the command for literal text in the
  whole tree passes \<^verbatim>\<open>true\<close>.
\<close>

theorem searchTextInFolder_issues_pattern_query:
  "searchTextInFolder ''notes/x'' (Some ''a.b'')
     = Some \<lparr>argPattern = ''a.b'', argLiteral = False, argFolder = ''notes/''\<rparr>
   \<and> searchText (Some ''a.b'')
     = Some \<lparr>argPattern = ''a.b'', argLiteral = True, argFolder = ''.''\<rparr>"
  by code_simp

text \<open>The flag is never set by that command; and no command calls \<^verbatim>\<open>openGrep\<close> without a pattern.\<close>

lemma searchTextInFolder_never_literal:
  "searchTextInFolder pageName prompted = Some args \<Longrightarrow> \<not> argLiteral args"
  by (auto simp: searchTextInFolder_def Let_def split: option.splits if_splits)

lemma empty_pattern_is_noop:
  "searchText None = None \<and> searchText (Some []) = None
   \<and> searchRegex None = None \<and> searchRegex (Some []) = None
   \<and> searchRegexInFolder pageName None = None \<and> searchRegexInFolder pageName (Some []) = None
   \<and> searchTextInFolder pageName None = None \<and> searchTextInFolder pageName (Some []) = None"
  by (simp add: searchText_def searchRegex_def searchRegexInFolder_def searchTextInFolder_def)

section \<open>Documents without matches\<close>

text \<open>
  Claim C6 as it is worded says that a document none of whose lines yields an occurrence
  is not in the report. The source pushes every group that passes the filters, with
  whatever matches its lines gave: when the tool reports a line on which the engine finds
  nothing, the document is in the report with no match, under the heading
  \<^verbatim>\<open>(0 match)\<close>.
\<close>

theorem zero_match_document_counterexample:
  "documentResults (findAll asciiCanonicalize True ''-e'' 0) emptyConfig dashOutput
     = [\<lparr>page = ''notes/a'', matches = []\<rparr>]
   \<and> grep asciiToLowerCase (literalEngine asciiCanonicalize) emptyConfig runDash ''-e'' True ''.''
     = Inr \<lparr>notified = [],
            returned = Some (''Search results for text **`-e`**'' @ [newline, newline]
                             @ ''## [[notes/a]] (0 match)'' @ [newline, newline] @ ''    '')\<rparr>"
  by code_simp

text \<open>
  Claim C6, amended. In every report that \<^verbatim>\<open>grep\<close> returns, the documents are exactly
  the groups of the tool's output whose first line ends in \<^verbatim>\<open>.md\<close>, whose folder is
  not ignored and whose page is neither of the two result pages; such a group is in the
  report whether or not its lines yield an occurrence. The matches of a document are those
  of the lines of its group: a hit line gives as many matches as the engine finds
  occurrences in its context, a line without the location prefix gives none. So a
  document has at least one match exactly when the engine finds an occurrence on one of
  its hit lines, and has none otherwise.
\<close>

theorem document_results_hold_engine_occurrences:
  assumes "grep lower E config run pat literal folder = Inr out"
    and "returned out = Some text"
  shows "\<exists>p matchAll.
      run ''git'' (gitArgs (caseSensitive lower config pat) literal pat folder) = ShellReturns p
    \<and> E (innerRegex (caseSensitive lower config pat) literal pat) = Some matchAll
    \<and> text = renderReport literal pat folder (documentResults matchAll config (stdout p))
    \<and> (\<forall>fm. fm \<in> set (documentResults matchAll config (stdout p)) \<longleftrightarrow>
          (\<exists>fileOutput header body.
             fileOutput \<in> set (split (stdout p) [newline, newline])
             \<and> split fileOutput [newline] = header # body
             \<and> endsWith header ''.md''
             \<and> \<not> shouldIgnoreFolder (folderOf (normalizePath (slice header 0 (- 3)))) config
             \<and> normalizePath (slice header 0 (- 3)) \<noteq> resultPageSaved
             \<and> normalizePath (slice header 0 (- 3)) \<noteq> resultPageVirtual
             \<and> fm = \<lparr>page = normalizePath (slice header 0 (- 3)),
                      matches = concat (map (lineMatches matchAll (surroundLeft config)
                                               (surroundRight config)) body)\<rparr>))
    \<and> (\<forall>ln col ctx.
          length (lineMatches matchAll (surroundLeft config) (surroundRight config)
                    (hitLine ln col ctx))
            = length (matchAll ctx))
    \<and> (\<forall>line. \<not> locationMatch line \<longrightarrow>
          lineMatches matchAll (surroundLeft config) (surroundRight config) line = [])"
proof -
  from grep_renders_documentResults [OF assms] obtain p matchAll where
    ran: "run ''git'' (gitArgs (caseSensitive lower config pat) literal pat folder) = ShellReturns p"
    and eng: "E (innerRegex (caseSensitive lower config pat) literal pat) = Some matchAll"
    and rendered: "text = renderReport literal pat folder
        (documentResults matchAll config (stdout p))"
    by blast
  have docs: "\<forall>fm. fm \<in> set (documentResults matchAll config (stdout p)) \<longleftrightarrow>
          (\<exists>fileOutput header body.
             fileOutput \<in> set (split (stdout p) [newline, newline])
             \<and> split fileOutput [newline] = header # body
             \<and> endsWith header ''.md''
             \<and> \<not> shouldIgnoreFolder (folderOf (normalizePath (slice header 0 (- 3)))) config
             \<and> normalizePath (slice header 0 (- 3)) \<noteq> resultPageSaved
             \<and> normalizePath (slice header 0 (- 3)) \<noteq> resultPageVirtual
             \<and> fm = \<lparr>page = normalizePath (slice header 0 (- 3)),
                      matches = concat (map (lineMatches matchAll (surroundLeft config)
                                               (surroundRight config)) body)\<rparr>)"
    by (intro allI) (rule documentResults_member)
  have hits: "\<forall>ln col ctx.
          length (lineMatches matchAll (surroundLeft config) (surroundRight config)
                    (hitLine ln col ctx))
            = length (matchAll ctx)"
    by (simp add: lineMatches_hitLine refine_eq)
  have others: "\<forall>line. \<not> locationMatch line \<longrightarrow>
          lineMatches matchAll (surroundLeft config) (surroundRight config) line = []"
    by (simp add: lineMatches_other)
  show ?thesis
    apply (rule exI [of _ p])
    apply (rule exI [of _ matchAll])
    using ran eng rendered docs hits others
    apply (intro conjI)
         apply assumption+
    done
qed

theorem document_results_hold_engine_occurrences_witness:
  "map (\<lambda>fm. (page fm, length (matches fm)))
       (documentResults (findAll asciiCanonicalize True ''todo'' 0) emptyConfig todoOutput)
     = [(''notes/a'', 3), (''b'', 1)]
   \<and> (\<exists>fileOutput header body.
        fileOutput \<in> set (split todoOutput [newline, newline])
        \<and> split fileOutput [newline] = header # body
        \<and> endsWith header ''.md''
        \<and> normalizePath (slice header 0 (- 3)) = ''notes/a'')"
proof -
  have counts: "map (\<lambda>fm. (page fm, length (matches fm)))
       (documentResults (findAll asciiCanonicalize True ''todo'' 0) emptyConfig todoOutput)
     = [(''notes/a'', 3), (''b'', 1)]"
    by code_simp
  then obtain fm rest where
    docs: "documentResults (findAll asciiCanonicalize True ''todo'' 0) emptyConfig todoOutput
        = fm # rest"
    and pg: "page fm = ''notes/a''"
    by auto
  from document_results_hold_engine_occurrences [OF grep_todo returned_todo]
  obtain p matchAll where
    ran: "runTodo ''git''
            (gitArgs (caseSensitive asciiToLowerCase emptyConfig ''todo'') True ''todo'' ''.'')
          = ShellReturns p"
    and eng: "literalEngine asciiCanonicalize
            (innerRegex (caseSensitive asciiToLowerCase emptyConfig ''todo'') True ''todo'')
          = Some matchAll"
    and members: "\<forall>fm. fm \<in> set (documentResults matchAll emptyConfig (stdout p)) \<longleftrightarrow>
          (\<exists>fileOutput header body.
             fileOutput \<in> set (split (stdout p) [newline, newline])
             \<and> split fileOutput [newline] = header # body
             \<and> endsWith header ''.md''
             \<and> \<not> shouldIgnoreFolder (folderOf (normalizePath (slice header 0 (- 3)))) emptyConfig
             \<and> normalizePath (slice header 0 (- 3)) \<noteq> resultPageSaved
             \<and> normalizePath (slice header 0 (- 3)) \<noteq> resultPageVirtual
             \<and> fm = \<lparr>page = normalizePath (slice header 0 (- 3)),
                      matches = concat (map (lineMatches matchAll (surroundLeft emptyConfig)
                                               (surroundRight emptyConfig)) body)\<rparr>)"
    by blast
  from docs have "fm \<in> set (documentResults (findAll asciiCanonicalize True ''todo'' 0)
      emptyConfig todoOutput)"
    by simp
  with members [unfolded runTodo_returns [OF ran] engine_todo [OF eng]]
  obtain fileOutput header body where
    "fileOutput \<in> set (split todoOutput [newline, newline])"
    "split fileOutput [newline] = header # body"
    "endsWith header ''.md''"
    "fm = \<lparr>page = normalizePath (slice header 0 (- 3)),
           matches = concat (map (lineMatches (findAll asciiCanonicalize True ''todo'' 0)
                                    (surroundLeft emptyConfig) (surroundRight emptyConfig)) body)\<rparr>"
    by blast
  with pg have "\<exists>fileOutput header body.
        fileOutput \<in> set (split todoOutput [newline, newline])
        \<and> split fileOutput [newline] = header # body
        \<and> endsWith header ''.md''
        \<and> normalizePath (slice header 0 (- 3)) = ''notes/a''"
    by auto
  with counts show ?thesis ..
qed

section \<open>Failures of the external search\<close>

text \<open>
  Claim C7 as it is worded counts an abnormal exit of the tool as a failure that is
  answered with the error notification. The source never reads the exit code: when the
  call returns, an empty output is answered with the notification that the pattern
  produced no results, whatever the exit code. So it is when the tool rejects the
  regular expression \<^verbatim>\<open>(\<close> and exits with \<open>128\<close>.
\<close>

theorem abnormal_exit_counterexample:
  "invocationFails (runFatal ''git''
      (gitArgs (caseSensitive asciiToLowerCase emptyConfig ''('') False ''('' ''.''))
   \<and> grep asciiToLowerCase (literalEngine asciiCanonicalize) emptyConfig runFatal ''('' False ''.''
       = Inr \<lparr>notified = [noResultsNotification False ''(''], returned = None\<rparr>
   \<and> kind (noResultsNotification False ''('') = Info
   \<and> noResultsNotification False ''('' \<noteq> gitErrorNotification"
  by code_simp

text \<open>
  Claim C7, amended. When the call of the external tool throws, \<^verbatim>\<open>grep\<close> does not
  throw: it flashes the error notification and returns no report. When the call returns
  nothing, or returns with an empty output, whatever the exit code, \<^verbatim>\<open>grep\<close>
  flashes the notification that the pattern produced no results and returns no report
  either. The two notifications differ in kind and in text.
\<close>

theorem external_search_errors:
  "(run ''git'' (gitArgs (caseSensitive lower config pat) literal pat folder) = ShellThrows \<longrightarrow>
      grep lower E config run pat literal folder
        = Inr \<lparr>notified = [gitErrorNotification], returned = None\<rparr>)
   \<and> (run ''git'' (gitArgs (caseSensitive lower config pat) literal pat folder) = ShellFalsy \<longrightarrow>
      grep lower E config run pat literal folder
        = Inr \<lparr>notified = [noResultsNotification literal pat], returned = None\<rparr>)
   \<and> (\<forall>result.
        run ''git'' (gitArgs (caseSensitive lower config pat) literal pat folder)
          = ShellReturns result \<longrightarrow>
        stdout result = [] \<longrightarrow>
        grep lower E config run pat literal folder
          = Inr \<lparr>notified = [noResultsNotification literal pat], returned = None\<rparr>)
   \<and> kind gitErrorNotification = Error
   \<and> kind (noResultsNotification literal pat) = Info
   \<and> message gitErrorNotification \<noteq> message (noResultsNotification literal pat)"
proof -
  have "hd (message gitErrorNotification) = CHR ''E''"
    by (simp add: gitErrorNotification_def)
  moreover have "hd (message (noResultsNotification literal pat)) \<noteq> CHR ''E''"
    by (simp add: noResultsNotification_def)
  ultimately have "message gitErrorNotification \<noteq> message (noResultsNotification literal pat)"
    by metis
  then show ?thesis
    by (auto simp: grep_def Let_def gitErrorNotification_def noResultsNotification_def)
qed

theorem external_search_errors_witness:
  "runThrows ''git'' (gitArgs (caseSensitive asciiToLowerCase emptyConfig ''todo'') True ''todo'' ''.'')
     = ShellThrows
   \<and> grep asciiToLowerCase (literalEngine asciiCanonicalize) emptyConfig runThrows ''todo'' True ''.''
       = Inr \<lparr>notified = [gitErrorNotification], returned = None\<rparr>
   \<and> runEmpty ''git'' (gitArgs (caseSensitive asciiToLowerCase emptyConfig ''todo'') True ''todo'' ''.'')
       = ShellReturns \<lparr>stdout = [], stderr = [], code = 1\<rparr>
   \<and> grep asciiToLowerCase (literalEngine asciiCanonicalize) emptyConfig runEmpty ''todo'' True ''.''
       = Inr \<lparr>notified = [noResultsNotification True ''todo''], returned = None\<rparr>
   \<and> runFatal ''git'' (gitArgs (caseSensitive asciiToLowerCase emptyConfig ''('') False ''('' ''.'')
       = ShellReturns \<lparr>stdout = [], stderr = ''fatal: command line, unmatched parenthesis'',
                        code = 128\<rparr>
   \<and> grep asciiToLowerCase (literalEngine asciiCanonicalize) emptyConfig runFatal ''('' False ''.''
       = Inr \<lparr>notified = [noResultsNotification False ''(''], returned = None\<rparr>"
  using external_search_errors [where run = runThrows and config = emptyConfig and pat = "''todo''"
      and literal = True and folder = "''.''" and E = "literalEngine asciiCanonicalize"
      and lower = asciiToLowerCase]
    external_search_errors [where run = runEmpty and config = emptyConfig and pat = "''todo''"
      and literal = True and folder = "''.''" and E = "literalEngine asciiCanonicalize"
      and lower = asciiToLowerCase]
    external_search_errors [where run = runFatal and config = emptyConfig and pat = "''(''"
      and literal = False and folder = "''.''" and E = "literalEngine asciiCanonicalize"
      and lower = asciiToLowerCase]
  by (simp add: runThrows_def runEmpty_def runFatal_def)

section \<open>Reading the virtual result page\<close>

text \<open>
  Claim C9. A read of the virtual result page never throws. When no arguments were ever
  stored, or when replaying the stored arguments throws, the content it returns is the
  placeholder text that tells the user to open the page through the commands of the plug.
\<close>

theorem lazy_render_error_recovery:
  "(storedArguments h = None
    \<or> (\<exists>args e. storedArguments h = Some args
          \<and> grep lower E config run (argPattern args) (argLiteral args) (argFolder args) = Inl e)
    \<longrightarrow> (\<exists>meta. readFileGrepResult lower E config run h nm
                  = Inr \<lparr>fileData = couldNotCallText, fileMeta = meta\<rparr>))
   \<and> (\<exists>file. readFileGrepResult lower E config run h nm = Inr file)"
  by (auto simp: readFileGrepResult_def replayStored_def Let_def)

theorem lazy_render_error_recovery_witness:
  "storedArguments emptyHost = None
   \<and> (\<exists>meta. readFileGrepResult asciiToLowerCase (literalEngine asciiCanonicalize) emptyConfig
                 runTodo emptyHost ''GREP RESULT''
               = Inr \<lparr>fileData = couldNotCallText, fileMeta = meta\<rparr>)
   \<and> grep asciiToLowerCase (literalEngine asciiCanonicalize) emptyConfig runTodo ''a**'' False ''.''
       = Inl SyntaxError
   \<and> (\<exists>meta. readFileGrepResult asciiToLowerCase (literalEngine asciiCanonicalize) emptyConfig
                 runTodo
                 (emptyHost\<lparr>storedArguments :=
                    Some \<lparr>argPattern = ''a**'', argLiteral = False, argFolder = ''.''\<rparr>\<rparr>)
                 ''GREP RESULT''
               = Inr \<lparr>fileData = couldNotCallText, fileMeta = meta\<rparr>)"
proof -
  have none: "storedArguments emptyHost = None"
    by (simp add: emptyHost_def)
  have throws: "grep asciiToLowerCase (literalEngine asciiCanonicalize) emptyConfig runTodo
      ''a**'' False ''.'' = Inl SyntaxError"
    by code_simp
  show ?thesis
    using none throws
      lazy_render_error_recovery [where h = emptyHost and E = "literalEngine asciiCanonicalize"
        and config = emptyConfig and run = runTodo and nm = "''GREP RESULT''"
        and lower = asciiToLowerCase]
      lazy_render_error_recovery [where h = "emptyHost\<lparr>storedArguments :=
            Some \<lparr>argPattern = ''a**'', argLiteral = False, argFolder = ''.''\<rparr>\<rparr>"
        and E = "literalEngine asciiCanonicalize" and config = emptyConfig and run = runTodo
        and nm = "''GREP RESULT''" and lower = asciiToLowerCase]
    by simp
qed

text \<open>The size that the metadata of the placeholder gives is its number of code units.\<close>

lemma placeholder_size:
  "readFileGrepResult asciiToLowerCase (literalEngine asciiCanonicalize) emptyConfig runTodo
     emptyHost ''GREP RESULT''
   = Inr \<lparr>fileData = couldNotCallText,
          fileMeta = \<lparr>metaName = ''GREP RESULT'', contentType = ''text/markdown'', metaSize = 100,
                      created = 0, lastModified = 0, perm = ''ro''\<rparr>\<rparr>"
  by code_simp

end
